theory Spec2Isabelle
  imports Main "HOL-Library.Word"
begin

section \<open>Untyped resource trees\<close>

text \<open>
  A resource snapshot is a Go \<^verbatim>\<open>map[string]interface{}\<close>. The dynamic type of an
  \<^verbatim>\<open>interface{}\<close> value decides every type switch of the accessors, so each Go
  type that can sit in the tree has its own constructor. The platform integer \<^verbatim>\<open>int\<close>
  is taken to be 64 bits wide (the amd64 and arm64 targets); machine integers are words, floats
  are carried as their IEEE bit pattern. A map is an association list read with \<open>map_of\<close>;
  a slice is a list.
\<close>

type_synonym go_int = "64 word"

datatype val =
    VNil
  | VBool bool
  | VString string
  | VInt go_int
  | VInt8 "8 word"
  | VInt16 "16 word"
  | VInt32 "32 word"
  | VInt64 "64 word"
  | VUint "64 word"
  | VUint8 "8 word"
  | VUint16 "16 word"
  | VUint32 "32 word"
  | VUint64 "64 word"
  | VFloat32 "32 word"
  | VFloat64 "64 word"
  | VSlice "val list"
  | VMap "(string \<times> val) list"

type_synonym obj = "(string \<times> val) list"

datatype error =
    AccessorError "string list"
  | ElementError "string list" nat
  | ClientError string
  | Aggregate "error list"

datatype panic = IndexOutOfRange

section \<open>Library functions the accessors call\<close>

text \<open>
  \<^verbatim>\<open>strings.Split(s, ".")\<close> of the Go standard library: the pieces of \<open>s\<close> between the
  dots, one more piece than there are dots, so the empty string gives one empty piece.
\<close>

fun Split :: "string \<Rightarrow> string list" where
  "Split [] = [[]]"
| "Split (c # cs) =
     (if c = CHR ''.'' then [] # Split cs
      else (case Split cs of [] \<Rightarrow> [[c]] | w # ws \<Rightarrow> (c # w) # ws))"

text \<open>
  Modelled from the spec: \<^verbatim>\<open>NestedFieldNoCopy(obj, fields...)\<close> belongs to the dependency
  k8s.io/apimachinery and its source is not under src/. Its contract, as the accessor section
  of the spec and the unit test of helpers.go use it: walk the path through nested maps and
  return \<open>(value, found, err)\<close>; a missing key, and a \<open>nil\<close> value met before the end of
  the path, is \<open>(nil, false, nil)\<close>, a step into anything else that is not a map is
  \<open>(nil, false, err)\<close>, the empty path returns the tree itself. Every caller below treats
  the last two outcomes alike. The argument \<open>seen\<close> is the part of the path already walked,
  which the error names.
\<close>

fun NestedFieldNoCopy :: "val \<Rightarrow> string list \<Rightarrow> string list \<Rightarrow> val \<times> bool \<times> error option" where
  "NestedFieldNoCopy v seen [] = (v, True, None)"
| "NestedFieldNoCopy (VMap m) seen (f # fs) =
     (case map_of m f of
        None \<Rightarrow> (VNil, False, None)
      | Some v \<Rightarrow> NestedFieldNoCopy v (seen @ [f]) fs)"
| "NestedFieldNoCopy VNil seen (f # fs) = (VNil, False, None)"
| "NestedFieldNoCopy v seen (f # fs) = (VNil, False, Some (AccessorError (seen @ [f])))"

section \<open>Generic tree accessor (helpers.go)\<close>

text \<open>
  \<^verbatim>\<open>fields := strings.Split(fieldPath, "."); if fields[0] == "" { fields = fields[1:] }\<close>.
  The index \<^verbatim>\<open>fields[0]\<close> panics on an empty slice; the panic is a value here.
\<close>

definition splitPath :: "string \<Rightarrow> panic + string list" where
  "splitPath fieldPath =
     (let fields = Split fieldPath in
      case fields of
        [] \<Rightarrow> Inl IndexOutOfRange
      | f # rest \<Rightarrow> Inr (if f = [] then rest else fields))"

definition GetStringField_run :: "obj \<Rightarrow> string \<Rightarrow> string \<Rightarrow> panic + string" where
  "GetStringField_run obj fieldPath defaultValue =
     (case splitPath fieldPath of
        Inl p \<Rightarrow> Inl p
      | Inr fields \<Rightarrow>
          (case NestedFieldNoCopy (VMap obj) [] fields of
             (v, found, err) \<Rightarrow>
               if \<not> found \<or> err \<noteq> None then Inr defaultValue
               else (case v of VString s \<Rightarrow> Inr s | _ \<Rightarrow> Inr defaultValue)))"

definition GetIntField_run :: "obj \<Rightarrow> string \<Rightarrow> go_int \<Rightarrow> panic + go_int" where
  "GetIntField_run obj fieldPath defaultValue =
     (case splitPath fieldPath of
        Inl p \<Rightarrow> Inl p
      | Inr fields \<Rightarrow>
          (case NestedFieldNoCopy (VMap obj) [] fields of
             (v, found, err) \<Rightarrow>
               if \<not> found \<or> err \<noteq> None then Inr defaultValue
               else (case v of
                       VInt i \<Rightarrow> Inr i
                     | VInt32 i \<Rightarrow> Inr (scast i)
                     | VInt64 i \<Rightarrow> Inr i
                     | _ \<Rightarrow> Inr defaultValue)))"

text \<open>
  The evaluators use the accessors as plain values. \<open>GetStringField\<close> and
  \<open>GetIntField\<close> are the results of the runs above; that a run never ends in a panic is
  proved below (\<open>GetStringField_run_total\<close>, \<open>GetIntField_run_total\<close>).
\<close>

definition GetStringField :: "obj \<Rightarrow> string \<Rightarrow> string \<Rightarrow> string" where
  "GetStringField obj fieldPath defaultValue =
     (case GetStringField_run obj fieldPath defaultValue of Inr s \<Rightarrow> s | Inl p \<Rightarrow> defaultValue)"

definition GetIntField :: "obj \<Rightarrow> string \<Rightarrow> go_int \<Rightarrow> go_int" where
  "GetIntField obj fieldPath defaultValue =
     (case GetIntField_run obj fieldPath defaultValue of Inr i \<Rightarrow> i | Inl p \<Rightarrow> defaultValue)"

text \<open>
  \<open>asMaps\<close> is the loop of \<^verbatim>\<open>NestedMapSlice\<close> over the slice: every element must be a
  map, the first that is not ends the call with an error naming its index.
\<close>

fun asMaps :: "string list \<Rightarrow> nat \<Rightarrow> val list \<Rightarrow> obj list \<Rightarrow> error + obj list" where
  "asMaps fields i [] conditions = Inr conditions"
| "asMaps fields i (VMap entry # array) conditions = asMaps fields (Suc i) array (conditions @ [entry])"
| "asMaps fields i (v # array) conditions = Inl (ElementError fields i)"

definition NestedMapSlice :: "obj \<Rightarrow> string list \<Rightarrow> obj list \<times> bool \<times> error option" where
  "NestedMapSlice obj fields =
     (case NestedFieldNoCopy (VMap obj) [] fields of
        (v, found, err) \<Rightarrow>
          if \<not> found \<or> err \<noteq> None then ([], found, err)
          else (case v of
                  VSlice array \<Rightarrow>
                    (case asMaps fields 0 array [] of
                       Inl e \<Rightarrow> ([], True, Some e)
                     | Inr conditions \<Rightarrow> (conditions, True, None))
                | _ \<Rightarrow> ([], True, Some (AccessorError fields))))"

text \<open>
  \<^verbatim>\<open>GetConditions\<close> prints a malformed-conditions error to standard output and returns
  the empty list; the print is not part of the returned value and is left out.
\<close>

definition GetConditions :: "obj \<Rightarrow> obj list" where
  "GetConditions obj =
     (case NestedMapSlice obj [''status'', ''conditions''] of
        (conditions, ok, err) \<Rightarrow>
          if err \<noteq> None then []
          else if \<not> ok then []
          else conditions)"

section \<open>Condition model (status.go)\<close>

datatype ConditionType = ConditionReady | ConditionSettled | ConditionFailed | ConditionCompleted

record Condition =
  Type :: ConditionType
  Status :: string
  Reason :: string

definition NewFalseCondition :: "ConditionType \<Rightarrow> Condition" where
  "NewFalseCondition ctype = \<lparr>Type = ctype, Status = ''False'', Reason = ''''\<rparr>"

definition NewCondition :: "ConditionType \<Rightarrow> string \<Rightarrow> Condition" where
  "NewCondition ctype reason = \<lparr>Type = ctype, Status = ''True'', Reason = reason\<rparr>"

text \<open>
  The methods \<^verbatim>\<open>Get\<close> and \<^verbatim>\<open>False\<close> of \<^verbatim>\<open>*Condition\<close>: the first copies the
  condition out of the pointer, the second sets the status.
\<close>

definition Condition_Get :: "Condition \<Rightarrow> Condition" where
  "Condition_Get c = c"

definition Condition_False :: "Condition \<Rightarrow> Condition" where
  "Condition_False c = c\<lparr>Status := ''False''\<rparr>"

fun GetCondition :: "Condition list \<Rightarrow> ConditionType \<Rightarrow> Condition option" where
  "GetCondition [] ct = None"
| "GetCondition (c # cs) ct = (if Type c = ct then Some c else GetCondition cs ct)"

section \<open>Formatting and comparing platform integers\<close>

text \<open>
  \<^verbatim>\<open>fmt.Sprintf("%d", n)\<close> writes a signed integer in decimal; \<^verbatim>\<open>a > b\<close> on
  \<^verbatim>\<open>int\<close> compares the signed values; \<^verbatim>\<open>a - b\<close> wraps around, as word subtraction
  does.
\<close>

function decimal :: "nat \<Rightarrow> string" where
  "decimal n = (if n < 10 then [char_of (48 + n)] else decimal (n div 10) @ [char_of (48 + n mod 10)])"
  by pat_completeness auto
termination
  by (relation "measure (\<lambda>n. n)") auto

declare decimal.simps [simp del]

definition fmt_d :: "go_int \<Rightarrow> string" where
  "fmt_d n = (if sint n < 0 then CHR ''-'' # decimal (nat (- sint n)) else decimal (nat (sint n)))"

definition int_gt :: "go_int \<Rightarrow> go_int \<Rightarrow> bool" where
  "int_gt a b = (sint b < sint a)"

definition int_lt :: "go_int \<Rightarrow> go_int \<Rightarrow> bool" where
  "int_lt a b = (sint a < sint b)"

section \<open>Per-kind evaluators\<close>

type_synonym GetConditionsFn = "obj \<Rightarrow> Condition list \<times> error option"

definition generationMismatch :: string where
  "generationMismatch =
     ''Controller has not observed the latest change. Status generation does not match with metadata''"

definition alwaysReady :: GetConditionsFn where
  "alwaysReady u = ([\<lparr>Type = ConditionReady, Status = ''True'', Reason = ''always''\<rparr>], None)"

subsection \<open>StatefulSet\<close>

definition stsConditions :: GetConditionsFn where
  "stsConditions obj =
     (let readyCondition = NewFalseCondition ConditionReady;
          updateStrategy = GetStringField obj ''.spec.updateStrategy.type'' '''' in
      if updateStrategy = ''ondelete'' then
        ([readyCondition\<lparr>Status := ''True'', Reason := ''ondelete strategy''\<rparr>], None)
      else
      let observedGeneration = GetIntField obj ''.status.observedGeneration'' (- 1);
          metaGeneration = GetIntField obj ''.metadata.generation'' (- 1) in
      if observedGeneration \<noteq> metaGeneration then
        ([readyCondition\<lparr>Reason := generationMismatch\<rparr>], None)
      else
      let specReplicas = GetIntField obj ''.spec.replicas'' 1;
          readyReplicas = GetIntField obj ''.status.readyReplicas'' 0;
          currentReplicas = GetIntField obj ''.status.currentReplicas'' 0;
          updatedReplicas = GetIntField obj ''.status.updatedReplicas'' 0;
          statusReplicas = GetIntField obj ''.status.replicas'' 0;
          partition = GetIntField obj ''.spec.updateStrategy.rollingUpdate.partition'' (- 1) in
      if int_gt specReplicas statusReplicas then
        ([readyCondition\<lparr>Reason := ''Waiting for requested replicas. Replicas: ''
            @ fmt_d statusReplicas @ ''/'' @ fmt_d specReplicas\<rparr>], None)
      else if int_gt specReplicas readyReplicas then
        ([readyCondition\<lparr>Reason := ''Waiting for replicas to become Ready. Ready: ''
            @ fmt_d readyReplicas @ ''/'' @ fmt_d specReplicas\<rparr>], None)
      else if partition \<noteq> - 1 then
        (if int_lt updatedReplicas (specReplicas - partition) then
           ([readyCondition\<lparr>Reason := ''Waiting for partition rollout to complete. updated: ''
               @ fmt_d updatedReplicas @ ''/'' @ fmt_d (specReplicas - partition)\<rparr>], None)
         else
           ([readyCondition\<lparr>Status := ''True'', Reason := ''Partition rollout complete. updated: ''
               @ fmt_d updatedReplicas\<rparr>], None))
      else if int_gt specReplicas currentReplicas then
        ([readyCondition\<lparr>Reason := ''Waiting for replicas to become current. current: ''
            @ fmt_d currentReplicas @ ''/'' @ fmt_d specReplicas\<rparr>], None)
      else
      let currentRevision = GetStringField obj ''.status.currentRevision'' '''';
          updatedRevision = GetStringField obj ''.status.updatedRevision'' '''' in
      if currentRevision \<noteq> updatedRevision then
        ([readyCondition\<lparr>Reason := ''Waiting for updated revision to match currentd''\<rparr>], None)
      else
        ([readyCondition\<lparr>Status := ''True'', Reason := ''All replicas scheduled as expected. Replicas: ''
            @ fmt_d statusReplicas\<rparr>], None))"

subsection \<open>Deployment\<close>

text \<open>
  The scan of \<open>status.conditions\<close>: \<open>Inl\<close> is the early return at a Progressing entry with
  reason ProgressDeadlineExceeded, \<open>Inr (progress, available)\<close> the two flags when the loop
  runs to its end.
\<close>

fun deploymentScan :: "Condition \<Rightarrow> obj list \<Rightarrow> bool \<Rightarrow> bool \<Rightarrow> Condition list + bool \<times> bool" where
  "deploymentScan readyCondition [] progress available = Inr (progress, available)"
| "deploymentScan readyCondition (c # cs) progress available =
     (let status = GetStringField c ''.status'' '''';
          reason = GetStringField c ''.reason'' '''';
          ctype = GetStringField c ''.type'' '''' in
      if ctype = ''Progressing'' then
        (if reason = ''ProgressDeadlineExceeded'' then
           Inl [readyCondition\<lparr>Reason := ''Progress Deadline exceeded''\<rparr>]
         else if status = ''True'' \<and> reason = ''NewReplicaSetAvailable'' then
           deploymentScan readyCondition cs True available
         else deploymentScan readyCondition cs progress available)
      else if ctype = ''Available'' then
        (if status = ''True'' then deploymentScan readyCondition cs progress True
         else deploymentScan readyCondition cs progress available)
      else deploymentScan readyCondition cs progress available)"

definition deploymentConditions :: GetConditionsFn where
  "deploymentConditions obj =
     (let readyCondition = NewFalseCondition ConditionReady;
          observedGeneration = GetIntField obj ''.status.observedGeneration'' (- 1);
          metaGeneration = GetIntField obj ''.metadata.generation'' (- 1) in
      if observedGeneration \<noteq> metaGeneration then
        ([readyCondition\<lparr>Reason := generationMismatch\<rparr>], None)
      else
      (case deploymentScan readyCondition (GetConditions obj) False False of
         Inl rv \<Rightarrow> (rv, None)
       | Inr (progress, available) \<Rightarrow>
      let specReplicas = GetIntField obj ''.spec.replicas'' 1;
          statusReplicas = GetIntField obj ''.status.replicas'' 0;
          updatedReplicas = GetIntField obj ''.status.updatedReplicas'' 0;
          readyReplicas = GetIntField obj ''.status.readyReplicas'' 0;
          availableReplicas = GetIntField obj ''.status.availableReplicas'' 0 in
      if int_gt specReplicas updatedReplicas then
        ([readyCondition\<lparr>Reason := ''Waiting for all replicas to be updated. Updated: ''
            @ fmt_d updatedReplicas @ ''/'' @ fmt_d specReplicas\<rparr>], None)
      else if int_gt statusReplicas updatedReplicas then
        ([readyCondition\<lparr>Reason := ''Waiting for old replicas to finish termination. Pending termination: ''
            @ fmt_d (statusReplicas - updatedReplicas)\<rparr>], None)
      else if int_gt updatedReplicas availableReplicas then
        ([readyCondition\<lparr>Reason := ''Waiting for all replicas to be available. Available: ''
            @ fmt_d availableReplicas @ ''/'' @ fmt_d updatedReplicas\<rparr>], None)
      else if int_gt specReplicas readyReplicas then
        ([readyCondition\<lparr>Reason := ''Waiting for all replicas to be ready. Ready: ''
            @ fmt_d readyReplicas @ ''/'' @ fmt_d specReplicas\<rparr>], None)
      else if int_gt specReplicas statusReplicas then
        ([readyCondition\<lparr>Reason := ''Waiting for all .status.replicas to be catchup. replicas: ''
            @ fmt_d statusReplicas @ ''/'' @ fmt_d specReplicas\<rparr>], None)
      else if \<not> progress then
        ([readyCondition\<lparr>Reason := ''New ReplicaSet is not available''\<rparr>], None)
      else if \<not> available then
        ([readyCondition\<lparr>Reason := ''Deployment is not Available''\<rparr>], None)
      else
        ([readyCondition\<lparr>Status := ''True'', Reason := ''Deployment is available. Replicas: ''
            @ fmt_d statusReplicas\<rparr>], None)))"

subsection \<open>ReplicaSet\<close>

text \<open>The scan returns \<open>True\<close> at the first ReplicaFailure entry with status True.\<close>

fun replicasetScan :: "obj list \<Rightarrow> bool" where
  "replicasetScan [] = False"
| "replicasetScan (c # cs) =
     (if GetStringField c ''.type'' '''' = ''ReplicaFailure''
         \<and> GetStringField c ''.status'' '''' = ''True''
      then True else replicasetScan cs)"

definition replicasetConditions :: GetConditionsFn where
  "replicasetConditions obj =
     (let readyCondition = NewFalseCondition ConditionReady;
          observedGeneration = GetIntField obj ''.status.observedGeneration'' (- 1);
          metaGeneration = GetIntField obj ''.metadata.generation'' (- 1) in
      if observedGeneration \<noteq> metaGeneration then
        ([readyCondition\<lparr>Reason := generationMismatch\<rparr>], None)
      else if replicasetScan (GetConditions obj) then
        ([readyCondition\<lparr>Reason := ''Replica Failure condition. Check Pods''\<rparr>], None)
      else
      let specReplicas = GetIntField obj ''.spec.replicas'' 1;
          statusReplicas = GetIntField obj ''.status.replicas'' 0;
          readyReplicas = GetIntField obj ''.status.readyReplicas'' 0;
          availableReplicas = GetIntField obj ''.status.availableReplicas'' 0;
          labelledReplicas = GetIntField obj ''.status.labelledReplicas'' 0 in
      if specReplicas = 0 \<and> labelledReplicas = 0 \<and> availableReplicas = 0 \<and> readyReplicas = 0 then
        ([readyCondition\<lparr>Reason := ''Replica is 0''\<rparr>], None)
      else if int_gt specReplicas labelledReplicas then
        ([readyCondition\<lparr>Reason := ''Waiting for all replicas to be fully-labeled. Labelled: ''
            @ fmt_d labelledReplicas @ ''/'' @ fmt_d specReplicas\<rparr>], None)
      else if int_gt specReplicas availableReplicas then
        ([readyCondition\<lparr>Reason := ''Waiting for all replicas to be available. Available: ''
            @ fmt_d availableReplicas @ ''/'' @ fmt_d specReplicas\<rparr>], None)
      else if int_gt specReplicas readyReplicas then
        ([readyCondition\<lparr>Reason := ''Waiting for all replicas to be ready. Ready: ''
            @ fmt_d readyReplicas @ ''/'' @ fmt_d specReplicas\<rparr>], None)
      else
        ([readyCondition\<lparr>Status := ''True'', Reason := ''ReplicaSet is available. Replicas: ''
            @ fmt_d statusReplicas\<rparr>], None))"

subsection \<open>DaemonSet\<close>

definition daemonsetConditions :: GetConditionsFn where
  "daemonsetConditions obj =
     (let readyCondition = NewFalseCondition ConditionReady;
          observedGeneration = GetIntField obj ''.status.observedGeneration'' (- 1);
          metaGeneration = GetIntField obj ''.metadata.generation'' (- 1) in
      if observedGeneration \<noteq> metaGeneration then
        ([readyCondition\<lparr>Reason := generationMismatch\<rparr>], None)
      else
      let desiredNumberScheduled = GetIntField obj ''.status.desiredNumberScheduled'' (- 1);
          currentNumberScheduled = GetIntField obj ''.status.currentNumberScheduled'' 0;
          updatedNumberScheduled = GetIntField obj ''.status.updatedNumberScheduled'' 0;
          numberAvailable = GetIntField obj ''.status.numberAvailable'' 0;
          numberReady = GetIntField obj ''.status.numberReady'' 0 in
      if desiredNumberScheduled = - 1 then
        ([readyCondition\<lparr>Reason := ''Missing .status.desiredNumberScheduled''\<rparr>], None)
      else if int_gt desiredNumberScheduled currentNumberScheduled then
        ([readyCondition\<lparr>Reason := ''Waiting for desired replicas to be scheduled. Current: ''
            @ fmt_d currentNumberScheduled @ ''/'' @ fmt_d desiredNumberScheduled\<rparr>], None)
      else if int_gt desiredNumberScheduled updatedNumberScheduled then
        ([readyCondition\<lparr>Reason := ''Waiting for updated replicas to be scheduled. Updated: ''
            @ fmt_d updatedNumberScheduled @ ''/'' @ fmt_d desiredNumberScheduled\<rparr>], None)
      else if int_gt desiredNumberScheduled numberAvailable then
        ([readyCondition\<lparr>Reason := ''Waiting for replicas to be available. Available: ''
            @ fmt_d numberAvailable @ ''/'' @ fmt_d desiredNumberScheduled\<rparr>], None)
      else if int_gt desiredNumberScheduled numberReady then
        ([readyCondition\<lparr>Reason := ''Waiting for replicas to be ready. Ready: ''
            @ fmt_d numberReady @ ''/'' @ fmt_d desiredNumberScheduled\<rparr>], None)
      else
        ([readyCondition\<lparr>Status := ''True'', Reason := ''All replicas scheduled as expected. Replicas: ''
            @ fmt_d desiredNumberScheduled\<rparr>], None))"

subsection \<open>PersistentVolumeClaim\<close>

definition pvcConditions :: GetConditionsFn where
  "pvcConditions obj =
     (let readyCondition = NewFalseCondition ConditionReady;
          phase = GetStringField obj ''.status.phase'' ''unknown'' in
      if phase \<noteq> ''Bound'' then
        ([readyCondition\<lparr>Reason := ''PVC is not Bound. phase: '' @ phase\<rparr>], None)
      else
        ([readyCondition\<lparr>Status := ''True'', Reason := ''PVC is Bound''\<rparr>], None))"

subsection \<open>Pod\<close>

text \<open>
  The loop over \<open>status.conditions\<close> carries the list \<open>rv\<close> of terminal conditions
  appended so far and the \<open>readyCondition\<close> being overwritten by each Ready entry.
\<close>

fun podScan :: "string \<Rightarrow> obj list \<Rightarrow> Condition list \<Rightarrow> Condition \<Rightarrow> Condition list \<times> Condition" where
  "podScan phase [] rv readyCondition = (rv, readyCondition)"
| "podScan phase (c # cs) rv readyCondition =
     (if GetStringField c ''.type'' '''' = ''Ready'' then
        (let readyCondition = readyCondition\<lparr>Reason := GetStringField c ''reason'' ''''\<rparr> in
         if GetStringField c ''status'' '''' = ''True'' then
           podScan phase cs rv (readyCondition\<lparr>Status := ''True''\<rparr>)
         else
           (let readyCondition = readyCondition\<lparr>Status := ''False''\<rparr> in
            if GetStringField c ''reason'' '''' = ''PodCompleted'' then
              (let readyCondition = readyCondition\<lparr>Status := ''True''\<rparr> in
               if phase = ''Succeeded'' then
                 podScan phase cs
                   (rv @ [Condition_Get (NewCondition ConditionCompleted ''Pod Succeeded'')])
                   readyCondition
               else
                 podScan phase cs
                   (rv @ [Condition_Get (NewCondition ConditionFailed (''Pod phase: '' @ phase))])
                   readyCondition)
            else podScan phase cs rv readyCondition))
      else podScan phase cs rv readyCondition)"

definition podConditions :: GetConditionsFn where
  "podConditions obj =
     (let phase = GetStringField obj ''.status.phase'' ''unknown'';
          conditions = GetConditions obj in
      case podScan phase conditions [] (NewFalseCondition ConditionReady) of
        (rv, readyCondition) \<Rightarrow>
          (let readyCondition =
                 (if Reason readyCondition = '''' then
                    readyCondition\<lparr>Reason := ''Phase: '' @ phase\<rparr>
                  else
                    readyCondition\<lparr>Reason := ''Phase: '' @ phase @ '', '' @ Reason readyCondition\<rparr>)
           in (rv @ [readyCondition], None)))"

subsection \<open>PodDisruptionBudget\<close>

definition pdbConditions :: GetConditionsFn where
  "pdbConditions obj =
     (let readyCondition = NewFalseCondition ConditionReady;
          currentHealthy = GetIntField obj ''.status.currentHealthy'' 0;
          desiredHealthy = GetIntField obj ''.status.desiredHealthy'' (- 1) in
      if desiredHealthy = - 1 then
        ([readyCondition\<lparr>Reason := ''Missing .status.desiredHealthy''\<rparr>], None)
      else if int_gt desiredHealthy currentHealthy then
        ([readyCondition\<lparr>Reason := ''Budget not met. healthy replicas: ''
            @ fmt_d currentHealthy @ ''/'' @ fmt_d desiredHealthy\<rparr>], None)
      else
        ([readyCondition\<lparr>Status := ''True'', Reason := ''Budget is met. Replicas: ''
            @ fmt_d currentHealthy @ ''/'' @ fmt_d desiredHealthy\<rparr>], None))"

subsection \<open>Job\<close>

text \<open>
  The scan returns at the first entry that is Complete or Failed with status True
  (\<open>Some\<close> of the returned list); \<open>None\<close> when the loop runs to its end.
\<close>

fun jobScan :: "go_int \<Rightarrow> go_int \<Rightarrow> go_int \<Rightarrow> obj list \<Rightarrow> Condition list option" where
  "jobScan succeeded failed completions [] = None"
| "jobScan succeeded failed completions (c # cs) =
     (let status = GetStringField c ''.status'' '''';
          ctype = GetStringField c ''.type'' '''' in
      if ctype = ''Complete'' then
        (if status = ''True'' then
           (let message = ''Job Completed. succeded: '' @ fmt_d succeeded @ ''/'' @ fmt_d completions in
            Some [Condition_Get (NewCondition ConditionReady message),
                  Condition_Get (NewCondition ConditionCompleted message)])
         else jobScan succeeded failed completions cs)
      else if ctype = ''Failed'' then
        (if status = ''True'' then
           (let message = ''Job Failed. failed: '' @ fmt_d failed @ ''/'' @ fmt_d completions in
            Some [Condition_Get (NewCondition ConditionReady message),
                  Condition_Get (NewCondition ConditionFailed message)])
         else jobScan succeeded failed completions cs)
      else jobScan succeeded failed completions cs)"

definition jobConditions :: GetConditionsFn where
  "jobConditions obj =
     (let parallelism = GetIntField obj ''.spec.parallelism'' 1;
          completions = GetIntField obj ''.spec.completions'' parallelism;
          succeeded = GetIntField obj ''.status.succeeded'' 0;
          active = GetIntField obj ''.status.active'' 0;
          failed = GetIntField obj ''.status.failed'' 0;
          conditions = GetConditions obj;
          starttime = GetStringField obj ''.status.startTime'' '''' in
      case jobScan succeeded failed completions conditions of
        Some rv \<Rightarrow> (rv, None)
      | None \<Rightarrow>
          if starttime = '''' then
            ([Condition_Get (Condition_False (NewCondition ConditionReady ''Job not started''))], None)
          else
            ([Condition_Get (NewCondition ConditionReady
                (''Job in progress. success:'' @ fmt_d succeeded @ '', active: '' @ fmt_d active
                   @ '', failed: '' @ fmt_d failed))], None))"

subsection \<open>Service\<close>

definition serviceConditions :: GetConditionsFn where
  "serviceConditions obj =
     (let specType = GetStringField obj ''.spec.type'' ''ClusterIP'';
          specClusterIP = GetStringField obj ''.spec.clusterIP'' '''';
          message = ''Always Ready. Service type: '' @ specType in
      if specType = ''LoadBalancer'' then
        (if specClusterIP = '''' then
           ([Condition_Get (Condition_False
               (NewCondition ConditionReady ''ClusterIP not set. Service type: LoadBalancer''))], None)
         else
           ([Condition_Get (NewCondition ConditionReady (''ClusterIP: '' @ specClusterIP))], None))
      else
        ([Condition_Get (NewCondition ConditionReady message)], None))"

section \<open>Generic evaluator\<close>

text \<open>
  The loop of \<^verbatim>\<open>readyConditionReader\<close>: every entry of type Ready appends one Ready
  condition to \<open>rv\<close> and sets the flag \<open>ready\<close>.
\<close>

fun readyScan :: "obj list \<Rightarrow> Condition list \<Rightarrow> bool \<Rightarrow> Condition list \<times> bool" where
  "readyScan [] rv ready = (rv, ready)"
| "readyScan (c # cs) rv ready =
     (if GetStringField c ''type'' '''' = ''Ready'' then
        (let reason = GetStringField c ''reason'' '''' in
         if GetStringField c ''status'' '''' = ''False'' then
           readyScan cs (rv @ [Condition_Get (Condition_False (NewCondition ConditionReady reason))]) True
         else
           readyScan cs (rv @ [Condition_Get (NewCondition ConditionReady reason)]) True)
      else readyScan cs rv ready)"

definition readyConditionReader :: GetConditionsFn where
  "readyConditionReader obj =
     (let metaGeneration = GetIntField obj ''.metadata.generation'' (- 1);
          observedGeneration = GetIntField obj ''.status.observedGeneration'' metaGeneration in
      if observedGeneration \<noteq> metaGeneration then
        ([Condition_Get (Condition_False (NewCondition ConditionReady generationMismatch))], None)
      else
        (case readyScan (GetConditions obj) [] False of
           (rv, ready) \<Rightarrow>
             if \<not> ready then
               (rv @ [Condition_Get (NewCondition ConditionReady ''No Ready condition found'')], None)
             else (rv, None)))"

section \<open>Evaluator registry and dispatcher\<close>

text \<open>
  \<^verbatim>\<open>u.GroupVersionKind()\<close> belongs to k8s.io/apimachinery; the dispatcher takes it as the
  parameter \<open>GroupVersionKind\<close>, a function from the snapshot to its (group, kind) pair.
\<close>

definition legacyTypes :: "(string \<times> (string \<times> GetConditionsFn) list) list" where
  "legacyTypes =
     [('''', [(''Service'', serviceConditions),
             (''Pod'', podConditions),
             (''PersistentVolumeClaim'', pvcConditions)]),
      (''apps'', [(''StatefulSet'', stsConditions),
                 (''DaemonSet'', daemonsetConditions),
                 (''Deployment'', deploymentConditions),
                 (''ReplicaSet'', replicasetConditions)]),
      (''policy'', [(''PodDisruptionBudget'', pdbConditions)]),
      (''batch'', [(''CronJob'', alwaysReady),
                  (''Job'', jobConditions)])]"

definition GetLegacyReadyFn :: "(obj \<Rightarrow> string \<times> string) \<Rightarrow> obj \<Rightarrow> GetConditionsFn option" where
  "GetLegacyReadyFn GroupVersionKind u =
     (case GroupVersionKind u of
        (g, k) \<Rightarrow>
          (case map_of legacyTypes g of
             Some kinds \<Rightarrow> (case map_of kinds k of Some fn \<Rightarrow> Some fn | None \<Rightarrow> None)
           | None \<Rightarrow> None))"

definition GetGenericReadyFn :: "obj \<Rightarrow> GetConditionsFn option" where
  "GetGenericReadyFn u = Some readyConditionReader"

definition IsReady :: "(obj \<Rightarrow> string \<times> string) \<Rightarrow> obj \<Rightarrow> Condition list \<times> error option" where
  "IsReady GroupVersionKind u =
     (let fn = GetLegacyReadyFn GroupVersionKind u;
          fn = (if fn = None then GetGenericReadyFn u else fn) in
      case fn of
        Some f \<Rightarrow> f u
      | None \<Rightarrow> ([], None))"

section \<open>Batch orchestrator\<close>

record ResourceStatus =
  Resource :: obj
  Conditions :: "Condition list"
  Error :: "error option"

record Result =
  Resources :: "ResourceStatus list"

text \<open>
  Modelled from the spec: \<^verbatim>\<open>errors.NewAggregate\<close> belongs to the dependency
  k8s.io/apimachinery and its source is not under src/. It gives \<open>nil\<close> for an empty slice
  and otherwise one composite error that carries every error of the slice, in order. (Its
  filter of \<open>nil\<close> entries has nothing to do here: the entries of an \<open>error list\<close> are
  errors.)
\<close>

definition NewAggregate :: "error list \<Rightarrow> error option" where
  "NewAggregate errlist = (if errlist = [] then None else Some (Aggregate errlist))"

text \<open>
  The store collaborator \<^verbatim>\<open>DynamicClient.Get(ctx, key, u)\<close> overwrites \<open>u\<close> and returns an
  error or \<open>nil\<close>. It is the parameter \<open>get\<close>: from the collaborator's state \<open>cl\<close> and the
  reference \<open>u\<close> to the new state, the content of \<open>u\<close> after the call, and the error.
  Snapshots are values: the \<open>Resource\<close> recorded for an item is the content \<open>Get\<close> left
  for that item. The line printed to \<^verbatim>\<open>a.Out\<close> is not part of the returned pair and is
  left out.
\<close>

fun Do_loop ::
  "('cl \<Rightarrow> obj \<Rightarrow> 'cl \<times> obj \<times> error option) \<Rightarrow> (obj \<Rightarrow> string \<times> string) \<Rightarrow>
   'cl \<Rightarrow> obj list \<Rightarrow> ResourceStatus list \<Rightarrow> error list \<Rightarrow> ResourceStatus list \<times> error list" where
  "Do_loop get GroupVersionKind cl [] rs errs = (rs, errs)"
| "Do_loop get GroupVersionKind cl (u0 # us) rs errs =
     (case get cl u0 of
        (cl', u, err) \<Rightarrow>
          (case err of
             Some e \<Rightarrow>
               Do_loop get GroupVersionKind cl' us
                 (rs @ [\<lparr>Resource = u, Conditions = [], Error = Some e\<rparr>]) (errs @ [e])
           | None \<Rightarrow>
               (case IsReady GroupVersionKind u of
                  (conditions, err) \<Rightarrow>
                    (case err of
                       Some e \<Rightarrow>
                         Do_loop get GroupVersionKind cl' us
                           (rs @ [\<lparr>Resource = u, Conditions = [], Error = Some e\<rparr>]) (errs @ [e])
                     | None \<Rightarrow>
                         Do_loop get GroupVersionKind cl' us
                           (rs @ [\<lparr>Resource = u, Conditions = conditions, Error = None\<rparr>]) errs))))"

definition Do ::
  "('cl \<Rightarrow> obj \<Rightarrow> 'cl \<times> obj \<times> error option) \<Rightarrow> (obj \<Rightarrow> string \<times> string) \<Rightarrow>
   'cl \<Rightarrow> obj list \<Rightarrow> Result \<times> error option" where
  "Do get GroupVersionKind cl resources =
     (case Do_loop get GroupVersionKind cl resources [] [] of
        (rs, errs) \<Rightarrow>
          if length errs \<noteq> 0 then (\<lparr>Resources = rs\<rparr>, NewAggregate errs)
          else (\<lparr>Resources = rs\<rparr>, None))"

section \<open>Vocabulary of the properties\<close>

text \<open>
  \<open>fieldAt obj path\<close> is the value stored in the tree at a dotted path, \<open>None\<close> when a
  key on the way is missing or a step leads into something that is not a map.
\<close>

definition fieldAt :: "obj \<Rightarrow> string \<Rightarrow> val option" where
  "fieldAt obj fieldPath =
     (case splitPath fieldPath of
        Inl p \<Rightarrow> None
      | Inr fs \<Rightarrow>
          (case NestedFieldNoCopy (VMap obj) [] fs of
             (v, found, err) \<Rightarrow> if found \<and> err = None then Some v else None))"

section \<open>Snapshots used as examples\<close>

text \<open>A StatefulSet with the ondelete strategy, no ready replica and a stale status.\<close>

definition stsOnDelete :: obj where
  "stsOnDelete =
     [(''metadata'', VMap [(''generation'', VInt64 2)]),
      (''spec'', VMap [(''replicas'', VInt64 3),
                      (''updateStrategy'', VMap [(''type'', VString ''ondelete'')])]),
      (''status'', VMap [(''observedGeneration'', VInt64 1), (''readyReplicas'', VInt64 0)])]"

text \<open>The tree of the accessor's own unit test, and a tree holding a 16-bit integer.\<close>

definition testObj :: obj where
  "testObj =
     [(''f1'', VMap [(''f2'', VMap
         [(''i32'', VInt32 32),
          (''i64'', VInt64 64),
          (''float'', VFloat64 0x40500147AE147AE1),
          (''ms'', VSlice [VMap [(''f1f2ms0f1'', VInt 22)], VMap [(''f1f2ms1f1'', VString ''index1'')]]),
          (''msbad'', VSlice [VMap [(''f1f2ms0f1'', VInt 22)], VInt 32])])]),
      (''ride'', VString ''dragon''),
      (''status'', VMap [(''conditions'',
          VSlice [VMap [(''f1f2ms0f1'', VInt 22)], VMap [(''f1f2ms1f1'', VString ''index1'')]])])]"

definition int16Obj :: obj where
  "int16Obj = [(''spec'', VMap [(''replicas'', VInt16 3)])]"


text \<open>
  A Deployment with every replica in place and an Available condition, whose Progressing
  condition reports ProgressDeadlineExceeded.
\<close>

definition deadlineEntry :: obj where
  "deadlineEntry =
     [(''type'', VString ''Progressing''), (''status'', VString ''False''),
      (''reason'', VString ''ProgressDeadlineExceeded'')]"

definition deadlineArray :: "val list" where
  "deadlineArray =
     [VMap [(''type'', VString ''Available''), (''status'', VString ''True'')],
      VMap deadlineEntry]"

definition deadlineObj :: obj where
  "deadlineObj =
     [(''metadata'', VMap [(''generation'', VInt64 1)]),
      (''spec'', VMap [(''replicas'', VInt64 1)]),
      (''status'', VMap
         [(''observedGeneration'', VInt64 1),
          (''replicas'', VInt64 1), (''updatedReplicas'', VInt64 1), (''readyReplicas'', VInt64 1),
          (''availableReplicas'', VInt64 1),
          (''conditions'', VSlice deadlineArray)])]"

text \<open>A custom resource with a generation and one condition that is not of type Ready.\<close>

definition customObj :: obj where
  "customObj =
     [(''metadata'', VMap [(''generation'', VInt64 3)]),
      (''status'', VMap
         [(''conditions'', VSlice
             [VMap [(''type'', VString ''Synced''), (''status'', VString ''False'')]])])]"

text \<open>
  The evaluators: the ten entries of the registry and the generic one. \<open>isReadyEntry\<close> says
  that an entry of \<open>status.conditions\<close> has type Ready.
\<close>

definition evaluators :: "GetConditionsFn list" where
  "evaluators = concat (map (\<lambda>(g, kinds). map snd kinds) legacyTypes) @ [readyConditionReader]"

definition isReadyEntry :: "obj \<Rightarrow> bool" where
  "isReadyEntry c = (fieldAt c ''type'' = Some (VString ''Ready''))"

text \<open>
  A result is well formed when it carries no error, at least one condition, and only the
  statuses "True" and "False".
\<close>

definition wellFormed :: "Condition list \<times> error option \<Rightarrow> bool" where
  "wellFormed r =
     (snd r = None \<and> fst r \<noteq> [] \<and> (\<forall>c\<in>set (fst r). Status c = ''True'' \<or> Status c = ''False''))"

text \<open>
  A custom resource with two Ready entries, one of them with status Unknown, and a Pod with
  the same two entries.
\<close>

definition twoReadyConditions :: val where
  "twoReadyConditions =
     VSlice [VMap [(''type'', VString ''Ready''), (''status'', VString ''Unknown''),
                   (''reason'', VString ''Probing'')],
             VMap [(''type'', VString ''Ready''), (''status'', VString ''False''),
                   (''reason'', VString ''PodCompleted'')]]"

definition twoReadyObj :: obj where
  "twoReadyObj = [(''status'', VMap [(''phase'', VString ''Succeeded''), (''conditions'', twoReadyConditions)])]"

definition oneReadyObj :: obj where
  "oneReadyObj =
     [(''status'', VMap
        [(''phase'', VString ''Succeeded''),
         (''conditions'', VSlice
            [VMap [(''type'', VString ''Initialized''), (''status'', VString ''True'')],
             VMap [(''type'', VString ''Ready''), (''status'', VString ''False''),
                   (''reason'', VString ''PodCompleted'')]])])]"

definition podGVK :: "obj \<Rightarrow> string \<times> string" where
  "podGVK u = ('''', ''Pod'')"

definition widgetGVK :: "obj \<Rightarrow> string \<times> string" where
  "widgetGVK u = (''example.com'', ''Widget'')"


text \<open>
  A succeeded Pod whose completed Ready entry is followed by a second Ready entry, and the
  entries of the Pod \<open>oneReadyObj\<close>.
\<close>

definition completedEntry :: obj where
  "completedEntry =
     [(''type'', VString ''Ready''), (''status'', VString ''False''),
      (''reason'', VString ''PodCompleted'')]"

definition initializedEntry :: obj where
  "initializedEntry = [(''type'', VString ''Initialized''), (''status'', VString ''True'')]"

definition overwrittenPod :: obj where
  "overwrittenPod =
     [(''status'', VMap
        [(''phase'', VString ''Succeeded''),
         (''conditions'', VSlice
            [VMap completedEntry,
             VMap [(''type'', VString ''Ready''), (''status'', VString ''False''),
                   (''reason'', VString ''ContainersNotReady'')]])])]"

definition failedPod :: obj where
  "failedPod =
     [(''status'', VMap
        [(''phase'', VString ''Failed''),
         (''conditions'', VSlice [VMap initializedEntry, VMap completedEntry])])]"





text \<open>
  \<open>fetchAll\<close> lists what the store collaborator delivers when it is asked for each
  reference in input order, its state passed from one call to the next: the content left in
  the reference and the error, if any.
\<close>

fun fetchAll ::
  "('cl \<Rightarrow> obj \<Rightarrow> 'cl \<times> obj \<times> error option) \<Rightarrow> 'cl \<Rightarrow> obj list \<Rightarrow> (obj \<times> error option) list" where
  "fetchAll get cl [] = []"
| "fetchAll get cl (u0 # us) =
     (case get cl u0 of (cl', u, err) \<Rightarrow> (u, err) # fetchAll get cl' us)"

text \<open>
  A store that counts its calls and knows every object but the one named "missing", and a
  reference with that name.
\<close>

definition demoGet :: "nat \<Rightarrow> obj \<Rightarrow> nat \<times> obj \<times> error option" where
  "demoGet calls u =
     (if fieldAt u ''.metadata.name'' = Some (VString ''missing'')
      then (Suc calls, u, Some (ClientError ''not found''))
      else (Suc calls, u, None))"

definition missingObj :: obj where
  "missingObj = [(''metadata'', VMap [(''name'', VString ''missing'')])]"

text \<open>
  \<open>intAt obj path\<close> is the integer stored at a path with one of the Go types \<^verbatim>\<open>int\<close>,
  \<^verbatim>\<open>int32\<close> or \<^verbatim>\<open>int64\<close>, as a platform integer; \<open>None\<close> when nothing is stored there
  or the stored value has any other type.
\<close>

definition intAt :: "obj \<Rightarrow> string \<Rightarrow> go_int option" where
  "intAt obj fieldPath =
     (case fieldAt obj fieldPath of
        Some (VInt i) \<Rightarrow> Some i
      | Some (VInt32 i) \<Rightarrow> Some (scast i)
      | Some (VInt64 i) \<Rightarrow> Some i
      | _ \<Rightarrow> None)"


definition floatGenObj :: obj where
  "floatGenObj =
     [(''metadata'', VMap [(''generation'', VFloat64 0x4000000000000000)]),
      (''spec'', VMap [(''replicas'', VInt64 1)]),
      (''status'', VMap
         [(''observedGeneration'', VFloat64 0x3FF0000000000000),
          (''replicas'', VInt64 1), (''updatedReplicas'', VInt64 1), (''readyReplicas'', VInt64 1),
          (''availableReplicas'', VInt64 1),
          (''conditions'', VSlice
             [VMap [(''type'', VString ''Progressing''), (''status'', VString ''True''),
                    (''reason'', VString ''NewReplicaSetAvailable'')],
              VMap [(''type'', VString ''Available''), (''status'', VString ''True'')]])])]"

section \<open>Properties of the tree accessor\<close>

lemma Split_nonempty: "Split s \<noteq> []"
  by (induction s) (auto split: list.splits)

lemma splitPath_total: "\<exists>fs. splitPath fieldPath = Inr fs"
  using Split_nonempty [of fieldPath]
  by (cases "Split fieldPath") (simp_all add: splitPath_def)

lemma GetStringField_run_total:
  "GetStringField_run obj p d = Inr (case fieldAt obj p of Some (VString s) \<Rightarrow> s | _ \<Rightarrow> d)"
proof -
  obtain fs where f: "splitPath p = Inr fs"
    using splitPath_total by blast
  obtain v found err where n: "NestedFieldNoCopy (VMap obj) [] fs = (v, found, err)"
    by (cases "NestedFieldNoCopy (VMap obj) [] fs") auto
  show ?thesis
    by (cases v) (auto simp: GetStringField_run_def fieldAt_def f n)
qed

lemma GetIntField_run_total:
  "GetIntField_run obj p d =
     Inr (case fieldAt obj p of
            Some (VInt i) \<Rightarrow> i
          | Some (VInt32 i) \<Rightarrow> scast i
          | Some (VInt64 i) \<Rightarrow> i
          | _ \<Rightarrow> d)"
proof -
  obtain fs where f: "splitPath p = Inr fs"
    using splitPath_total by blast
  obtain v found err where n: "NestedFieldNoCopy (VMap obj) [] fs = (v, found, err)"
    by (cases "NestedFieldNoCopy (VMap obj) [] fs") auto
  show ?thesis
    by (cases v) (auto simp: GetIntField_run_def fieldAt_def f n)
qed

lemma GetStringField_eq:
  "GetStringField obj p d = (case fieldAt obj p of Some (VString s) \<Rightarrow> s | _ \<Rightarrow> d)"
  by (simp add: GetStringField_def GetStringField_run_total)

lemma GetIntField_eq:
  "GetIntField obj p d =
     (case fieldAt obj p of
        Some (VInt i) \<Rightarrow> i
      | Some (VInt32 i) \<Rightarrow> scast i
      | Some (VInt64 i) \<Rightarrow> i
      | _ \<Rightarrow> d)"
  by (simp add: GetIntField_def GetIntField_run_total)

text \<open>The reads of \<^verbatim>\<open>TestNestedMapSlice\<close> and \<^verbatim>\<open>TestGetConditions\<close> in helpers_test.go.\<close>

lemma NestedMapSlice_unit_test:
  "NestedMapSlice testObj [''f1'', ''f2'', ''ms''] =
     ([[(''f1f2ms0f1'', VInt 22)], [(''f1f2ms1f1'', VString ''index1'')]], True, None)"
  "NestedMapSlice testObj [''f1'', ''f2'', ''msbad''] =
     ([], True, Some (ElementError [''f1'', ''f2'', ''msbad''] 1))"
  "NestedMapSlice testObj [''f1'', ''f2'', ''wrongname''] = ([], False, None)"
  "NestedMapSlice testObj [''f1'', ''f2'', ''i64''] =
     ([], True, Some (AccessorError [''f1'', ''f2'', ''i64'']))"
  "GetConditions [] = []"
  "GetConditions testObj = [[(''f1f2ms0f1'', VInt 22)], [(''f1f2ms1f1'', VString ''index1'')]]"
  by code_simp+

lemma sint_scast_32_64: "sint (scast (i :: 32 word) :: 64 word) = sint i"
  using sint_ge [of i] sint_lt [of i]
  by (simp add: signed_scast_eq signed_take_bit_int_eq_self_iff)

section \<open>StatefulSet: the ondelete strategy\<close>

text \<open>
  C6. A StatefulSet whose \<open>spec.updateStrategy.type\<close> is the string "ondelete" gets the
  single condition Ready=True with reason "ondelete strategy", whatever else the snapshot
  holds: no replica count and no generation is read before the return.
\<close>

theorem sts_ondelete_ready:
  assumes "fieldAt obj ''.spec.updateStrategy.type'' = Some (VString ''ondelete'')"
  shows "stsConditions obj =
           ([\<lparr>Type = ConditionReady, Status = ''True'', Reason = ''ondelete strategy''\<rparr>], None)"
  using assms by (simp add: stsConditions_def GetStringField_eq NewFalseCondition_def)

theorem sts_ondelete_ready_witness:
  "fieldAt stsOnDelete ''.spec.updateStrategy.type'' = Some (VString ''ondelete'')
   \<and> GetIntField stsOnDelete ''.status.readyReplicas'' 7 = 0
   \<and> GetIntField stsOnDelete ''.metadata.generation'' (- 1)
       \<noteq> GetIntField stsOnDelete ''.status.observedGeneration'' (- 1)
   \<and> stsConditions stsOnDelete =
           ([\<lparr>Type = ConditionReady, Status = ''True'', Reason = ''ondelete strategy''\<rparr>], None)"
proof -
  have h: "fieldAt stsOnDelete ''.spec.updateStrategy.type'' = Some (VString ''ondelete'')"
    by code_simp
  have r: "GetIntField stsOnDelete ''.status.readyReplicas'' 7 = 0"
    by code_simp
  have g: "GetIntField stsOnDelete ''.metadata.generation'' (- 1)
             \<noteq> GetIntField stsOnDelete ''.status.observedGeneration'' (- 1)"
    by code_simp
  show ?thesis using h r g sts_ondelete_ready [OF h] by simp
qed

section \<open>The accessors never fail\<close>

text \<open>
  C8 (as amended). \<open>GetStringField\<close> and \<open>GetIntField\<close> always return a value: no run
  ends in a panic. When nothing is stored at the path the default comes back.
  \<open>GetStringField\<close> returns a stored string and the default for a value of any other
  type. \<open>GetIntField\<close> returns a stored \<^verbatim>\<open>int\<close> or \<^verbatim>\<open>int64\<close> unchanged and a stored
  \<^verbatim>\<open>int32\<close> sign-extended to the platform integer; a value of any other type, among
  them floats and the integer types of other widths or without sign, gives the default.
\<close>

theorem accessors_total_default:
  "(\<exists>s. GetStringField_run obj p d = Inr s)
   \<and> (\<exists>i. GetIntField_run obj p n = Inr i)
   \<and> (fieldAt obj p = None \<longrightarrow> GetStringField obj p d = d \<and> GetIntField obj p n = n)
   \<and> (\<forall>s. fieldAt obj p = Some (VString s) \<longrightarrow> GetStringField obj p d = s)
   \<and> ((\<forall>s. fieldAt obj p \<noteq> Some (VString s)) \<longrightarrow> GetStringField obj p d = d)
   \<and> (\<forall>i. fieldAt obj p = Some (VInt i) \<or> fieldAt obj p = Some (VInt64 i) \<longrightarrow> GetIntField obj p n = i)
   \<and> (\<forall>i. fieldAt obj p = Some (VInt32 i) \<longrightarrow>
          GetIntField obj p n = scast i \<and> sint (GetIntField obj p n) = sint i)
   \<and> ((\<forall>i. fieldAt obj p \<noteq> Some (VInt i) \<and> fieldAt obj p \<noteq> Some (VInt64 i))
        \<and> (\<forall>i. fieldAt obj p \<noteq> Some (VInt32 i)) \<longrightarrow> GetIntField obj p n = n)"
proof -
  have a: "\<exists>s. GetStringField_run obj p d = Inr s"
    by (simp add: GetStringField_run_total)
  have b: "\<exists>i. GetIntField_run obj p n = Inr i"
    by (simp add: GetIntField_run_total)
  have c: "fieldAt obj p = None \<longrightarrow> GetStringField obj p d = d \<and> GetIntField obj p n = n"
    by (simp add: GetStringField_eq GetIntField_eq)
  have d: "\<forall>s. fieldAt obj p = Some (VString s) \<longrightarrow> GetStringField obj p d = s"
    by (simp add: GetStringField_eq)
  have e: "(\<forall>s. fieldAt obj p \<noteq> Some (VString s)) \<longrightarrow> GetStringField obj p d = d"
    by (auto simp: GetStringField_eq split: option.splits val.splits)
  have f: "\<forall>i. fieldAt obj p = Some (VInt i) \<or> fieldAt obj p = Some (VInt64 i) \<longrightarrow> GetIntField obj p n = i"
    by (auto simp: GetIntField_eq)
  have g: "\<forall>i. fieldAt obj p = Some (VInt32 i) \<longrightarrow>
          GetIntField obj p n = scast i \<and> sint (GetIntField obj p n) = sint i"
    by (auto simp: GetIntField_eq sint_scast_32_64)
  have h: "(\<forall>i. fieldAt obj p \<noteq> Some (VInt i) \<and> fieldAt obj p \<noteq> Some (VInt64 i))
        \<and> (\<forall>i. fieldAt obj p \<noteq> Some (VInt32 i)) \<longrightarrow> GetIntField obj p n = n"
    by (auto simp: GetIntField_eq split: option.splits val.splits)
  from a b c d e f g h show ?thesis by blast
qed

text \<open>The reads of the accessor's unit test, and a string read at a path that holds an integer.\<close>

theorem accessors_total_default_witness:
  "GetIntField testObj ''.f1.f2.i32'' (- 1) = 32
   \<and> GetIntField testObj ''.f1.f2.wrongname'' (- 1) = - 1
   \<and> GetIntField testObj ''.f1.f2.i64'' (- 1) = 64
   \<and> GetIntField testObj ''.f1.f2.float'' (- 1) = - 1
   \<and> GetStringField testObj ''.ride'' ''horse'' = ''dragon''
   \<and> GetStringField testObj ''.destination'' ''north'' = ''north''
   \<and> GetStringField testObj ''.f1.f2.i64'' ''north'' = ''north''"
proof -
  have i32: "fieldAt testObj ''.f1.f2.i32'' = Some (VInt32 32)" by code_simp
  have wrong: "fieldAt testObj ''.f1.f2.wrongname'' = None" by code_simp
  have i64: "fieldAt testObj ''.f1.f2.i64'' = Some (VInt64 64)" by code_simp
  have fl: "fieldAt testObj ''.f1.f2.float'' = Some (VFloat64 0x40500147AE147AE1)" by code_simp
  have ride: "fieldAt testObj ''.ride'' = Some (VString ''dragon'')" by code_simp
  have dest: "fieldAt testObj ''.destination'' = None" by code_simp
  show ?thesis
    using accessors_total_default [of testObj "''.f1.f2.i32''" "''''" "- 1"]
      accessors_total_default [of testObj "''.f1.f2.wrongname''" "''''" "- 1"]
      accessors_total_default [of testObj "''.f1.f2.i64''" "''north''" "- 1"]
      accessors_total_default [of testObj "''.f1.f2.float''" "''''" "- 1"]
      accessors_total_default [of testObj "''.ride''" "''horse''" "- 1"]
      accessors_total_default [of testObj "''.destination''" "''north''" "- 1"]
    by (simp add: i32 wrong i64 fl ride dest)
qed

text \<open>
  The claim as written promises the stored value for an integer of any width. A stored
  \<^verbatim>\<open>int16\<close> of value 3 is not among the cases of the type switch: the default 1 is
  returned.
\<close>

theorem GetIntField_int16_counterexample:
  "fieldAt int16Obj ''.spec.replicas'' = Some (VInt16 3)
   \<and> GetIntField_run int16Obj ''.spec.replicas'' 1 = Inr 1"
  by code_simp

section \<open>Reading entries of \<open>status.conditions\<close>\<close>

lemma GetStringField_is:
  "d \<noteq> s \<Longrightarrow> (GetStringField obj p d = s) = (fieldAt obj p = Some (VString s))"
  by (auto simp: GetStringField_eq split: option.splits val.splits)

lemma fieldAt_dot_type: "fieldAt c ''.type'' = fieldAt c ''type''"
  by (simp add: fieldAt_def splitPath_def)

lemma fieldAt_dot_status: "fieldAt c ''.status'' = fieldAt c ''status''"
  by (simp add: fieldAt_def splitPath_def)

lemma fieldAt_dot_reason: "fieldAt c ''.reason'' = fieldAt c ''reason''"
  by (simp add: fieldAt_def splitPath_def)

lemmas entry_reads = GetStringField_eq fieldAt_dot_type fieldAt_dot_status fieldAt_dot_reason

lemma asMaps_Inr: "asMaps fs i array acc = Inr cs \<Longrightarrow> map VMap cs = map VMap acc @ array"
proof (induction fs i array acc rule: asMaps.induct)
  case (1 fs i conditions)
  then show ?case by simp
next
  case (2 fs i entry array conditions)
  then show ?case by simp
qed simp_all

lemma GetConditions_eq:
  "GetConditions obj =
     (case fieldAt obj ''.status.conditions'' of
        Some (VSlice array) \<Rightarrow>
          (case asMaps [''status'', ''conditions''] 0 array [] of Inr cs \<Rightarrow> cs | Inl e \<Rightarrow> [])
      | _ \<Rightarrow> [])"
proof -
  obtain v found err
    where n: "NestedFieldNoCopy (VMap obj) [] [''status'', ''conditions''] = (v, found, err)"
    by (cases "NestedFieldNoCopy (VMap obj) [] [''status'', ''conditions'']") auto
  have s: "splitPath ''.status.conditions'' = Inr [''status'', ''conditions'']"
    by (simp add: splitPath_def)
  show ?thesis
    by (cases v)
       (auto simp: GetConditions_def NestedMapSlice_def fieldAt_def s n
             simp del: NestedFieldNoCopy.simps split: sum.splits)
qed

lemma GetConditions_absent: "fieldAt obj ''.status.conditions'' = None \<Longrightarrow> GetConditions obj = []"
  by (simp add: GetConditions_eq)

lemma GetConditions_slice:
  assumes "fieldAt obj ''.status.conditions'' = Some (VSlice array)"
  shows "GetConditions obj = [] \<or> map VMap (GetConditions obj) = array"
proof (cases "asMaps [''status'', ''conditions''] 0 array []")
  case (Inl e)
  then show ?thesis using assms by (simp add: GetConditions_eq)
next
  case (Inr cs)
  then have "map VMap cs = array" using asMaps_Inr [OF Inr] by simp
  then show ?thesis using assms Inr by (simp add: GetConditions_eq)
qed

lemma asMaps_all_maps:
  "\<forall>v\<in>set array. \<exists>m. v = VMap m \<Longrightarrow> \<exists>cs. asMaps fs i array acc = Inr cs"
proof (induction fs i array acc rule: asMaps.induct)
  case (1 fs i conditions)
  then show ?case by simp
next
  case (2 fs i entry array conditions)
  then show ?case by simp
qed auto

lemma GetConditions_all_maps:
  assumes "fieldAt obj ''.status.conditions'' = Some (VSlice array)"
    and "\<forall>v\<in>set array. \<exists>m. v = VMap m"
  shows "map VMap (GetConditions obj) = array"
proof -
  obtain cs where cs: "asMaps [''status'', ''conditions''] 0 array [] = Inr cs"
    using asMaps_all_maps [OF assms(2)] by blast
  then have "map VMap cs = array" using asMaps_Inr [OF cs] by simp
  then show ?thesis using assms(1) cs by (simp add: GetConditions_eq)
qed

section \<open>Generic evaluator without a Ready entry\<close>

lemma readyScan_no_ready:
  "\<forall>c\<in>set cs. fieldAt c ''type'' \<noteq> Some (VString ''Ready'') \<Longrightarrow> readyScan cs rv ready = (rv, ready)"
  by (induction cs arbitrary: rv ready) (simp_all add: GetStringField_is)

text \<open>
  C9. When the generic evaluator's generation check passes and no entry of \<open>status.conditions\<close>
  has type Ready, in particular when the snapshot has no \<open>status.conditions\<close> at all, the
  result is the single condition Ready=True with reason "No Ready condition found".
\<close>

theorem generic_no_ready_entry:
  assumes "GetIntField obj ''.status.observedGeneration'' (GetIntField obj ''.metadata.generation'' (- 1))
             = GetIntField obj ''.metadata.generation'' (- 1)"
    and "fieldAt obj ''.status.conditions'' = None
         \<or> (\<forall>c\<in>set (GetConditions obj). fieldAt c ''type'' \<noteq> Some (VString ''Ready''))"
  shows "readyConditionReader obj =
           ([\<lparr>Type = ConditionReady, Status = ''True'', Reason = ''No Ready condition found''\<rparr>], None)"
proof -
  have "\<forall>c\<in>set (GetConditions obj). fieldAt c ''type'' \<noteq> Some (VString ''Ready'')"
    using assms(2) GetConditions_absent [of obj] by auto
  then have "readyScan (GetConditions obj) [] False = ([], False)"
    by (rule readyScan_no_ready)
  then show ?thesis
    using assms(1)
    by (simp add: readyConditionReader_def Let_def NewCondition_def Condition_Get_def)
qed

theorem generic_no_ready_entry_witness:
  "readyConditionReader customObj =
     ([\<lparr>Type = ConditionReady, Status = ''True'', Reason = ''No Ready condition found''\<rparr>], None)
   \<and> readyConditionReader [] =
     ([\<lparr>Type = ConditionReady, Status = ''True'', Reason = ''No Ready condition found''\<rparr>], None)"
proof -
  have g: "GetIntField customObj ''.status.observedGeneration''
             (GetIntField customObj ''.metadata.generation'' (- 1))
           = GetIntField customObj ''.metadata.generation'' (- 1)"
    by code_simp
  have c: "\<forall>c\<in>set (GetConditions customObj). fieldAt c ''type'' \<noteq> Some (VString ''Ready'')"
    by code_simp
  have g0: "GetIntField [] ''.status.observedGeneration'' (GetIntField [] ''.metadata.generation'' (- 1))
           = GetIntField [] ''.metadata.generation'' (- 1)"
    by code_simp
  have c0: "fieldAt [] ''.status.conditions'' = None"
    by code_simp
  show ?thesis
    using generic_no_ready_entry [of customObj] generic_no_ready_entry [of "[]"] g c g0 c0
    by simp
qed

section \<open>Deployment: progress deadline exceeded\<close>

lemma deploymentScan_deadline:
  assumes "c \<in> set cs"
    and "fieldAt c ''type'' = Some (VString ''Progressing'')"
    and "fieldAt c ''reason'' = Some (VString ''ProgressDeadlineExceeded'')"
  shows "deploymentScan rc cs progress available = Inl [rc\<lparr>Reason := ''Progress Deadline exceeded''\<rparr>]"
  using assms
proof (induction cs arbitrary: progress available)
  case Nil
  then show ?case by simp
next
  case (Cons d ds)
  show ?case
  proof (cases "d = c")
    case True
    then show ?thesis using Cons.prems by (simp add: entry_reads)
  next
    case False
    then have "c \<in> set ds" using Cons.prems by simp
    then have "\<And>p a. deploymentScan rc ds p a = Inl [rc\<lparr>Reason := ''Progress Deadline exceeded''\<rparr>]"
      using Cons.IH Cons.prems by blast
    then show ?thesis by (simp add: Let_def)
  qed
qed

lemma deployment_without_progress:
  assumes "deploymentScan (NewFalseCondition ConditionReady) (GetConditions obj) False False
             = Inr (False, available)"
  shows "\<exists>reason. deploymentConditions obj =
           ([\<lparr>Type = ConditionReady, Status = ''False'', Reason = reason\<rparr>], None)"
  using assms by (simp add: deploymentConditions_def Let_def NewFalseCondition_def)

text \<open>
  C7. Let a Deployment pass the generation check and let its \<open>status.conditions\<close> list hold an
  entry of type Progressing with reason ProgressDeadlineExceeded. Then the result is one Ready
  condition with status False, whatever the replica counts are. When the list is well formed
  (all its elements are maps) the scan reaches the entry and the reason is
  "Progress Deadline exceeded"; a malformed list is read as empty, and an empty list never
  yields Ready=True.
\<close>

theorem deployment_deadline_exceeded:
  assumes "GetIntField obj ''.status.observedGeneration'' (- 1)
             = GetIntField obj ''.metadata.generation'' (- 1)"
    and "fieldAt obj ''.status.conditions'' = Some (VSlice array)"
    and "VMap c \<in> set array"
    and "fieldAt c ''type'' = Some (VString ''Progressing'')"
    and "fieldAt c ''reason'' = Some (VString ''ProgressDeadlineExceeded'')"
  shows "(\<exists>reason. deploymentConditions obj =
            ([\<lparr>Type = ConditionReady, Status = ''False'', Reason = reason\<rparr>], None))
         \<and> ((\<forall>v\<in>set array. \<exists>m. v = VMap m) \<longrightarrow>
              deploymentConditions obj =
                ([\<lparr>Type = ConditionReady, Status = ''False'',
                   Reason = ''Progress Deadline exceeded''\<rparr>], None))"
proof -
  have seen: "deploymentConditions obj =
                ([\<lparr>Type = ConditionReady, Status = ''False'',
                   Reason = ''Progress Deadline exceeded''\<rparr>], None)"
    if "map VMap (GetConditions obj) = array"
  proof -
    have "c \<in> set (GetConditions obj)" using that assms(3) by auto
    then have "deploymentScan (NewFalseCondition ConditionReady) (GetConditions obj) False False
                 = Inl [(NewFalseCondition ConditionReady)\<lparr>Reason := ''Progress Deadline exceeded''\<rparr>]"
      using assms(4,5) by (rule deploymentScan_deadline)
    then show ?thesis
      using assms(1) by (simp add: deploymentConditions_def Let_def NewFalseCondition_def)
  qed
  have first: "\<exists>reason. deploymentConditions obj =
            ([\<lparr>Type = ConditionReady, Status = ''False'', Reason = reason\<rparr>], None)"
    using GetConditions_slice [OF assms(2)]
  proof
    assume "GetConditions obj = []"
    then show ?thesis using deployment_without_progress [of obj False] by simp
  next
    assume "map VMap (GetConditions obj) = array"
    then show ?thesis using seen by blast
  qed
  have second: "(\<forall>v\<in>set array. \<exists>m. v = VMap m) \<longrightarrow>
              deploymentConditions obj =
                ([\<lparr>Type = ConditionReady, Status = ''False'',
                   Reason = ''Progress Deadline exceeded''\<rparr>], None)"
    using GetConditions_all_maps [OF assms(2)] seen by blast
  from first second show ?thesis by blast
qed

theorem deployment_deadline_exceeded_witness:
  "GetIntField deadlineObj ''.spec.replicas'' 0 = 1
   \<and> GetIntField deadlineObj ''.status.availableReplicas'' 0 = 1
   \<and> deploymentConditions deadlineObj =
        ([\<lparr>Type = ConditionReady, Status = ''False'', Reason = ''Progress Deadline exceeded''\<rparr>], None)"
proof -
  have g: "GetIntField deadlineObj ''.status.observedGeneration'' (- 1)
             = GetIntField deadlineObj ''.metadata.generation'' (- 1)"
    by code_simp
  have a: "fieldAt deadlineObj ''.status.conditions'' = Some (VSlice deadlineArray)"
    by code_simp
  have m: "VMap deadlineEntry \<in> set deadlineArray"
    by (simp add: deadlineArray_def)
  have t: "fieldAt deadlineEntry ''type'' = Some (VString ''Progressing'')"
    by code_simp
  have r: "fieldAt deadlineEntry ''reason'' = Some (VString ''ProgressDeadlineExceeded'')"
    by code_simp
  have w: "\<forall>v\<in>set deadlineArray. \<exists>m. v = VMap m"
    by (simp add: deadlineArray_def)
  have s: "GetIntField deadlineObj ''.spec.replicas'' 0 = 1" by code_simp
  have v: "GetIntField deadlineObj ''.status.availableReplicas'' 0 = 1" by code_simp
  show ?thesis
    using deployment_deadline_exceeded [OF g a m t r] w s v by simp
qed

section \<open>The generation check\<close>





text \<open>
  Generations that the accessor does not read are absent to every evaluator: with the
  floating-point generations 2.0 and 1.0 and every other signal ready, the check passes.
\<close>

lemma float_generations_pass:
  "intAt floatGenObj ''.metadata.generation'' = None"
  "intAt floatGenObj ''.status.observedGeneration'' = None"
  "deploymentConditions floatGenObj =
     ([\<lparr>Type = ConditionReady, Status = ''True'', Reason = ''Deployment is available. Replicas: 1''\<rparr>],
      None)"
  "readyConditionReader floatGenObj =
     ([\<lparr>Type = ConditionReady, Status = ''True'', Reason = ''No Ready condition found''\<rparr>], None)"
  by code_simp+

section \<open>Shape of the evaluators' results\<close>

lemma sts_single:
  "\<exists>s r. stsConditions obj = ([\<lparr>Type = ConditionReady, Status = s, Reason = r\<rparr>], None)
         \<and> (s = ''True'' \<or> s = ''False'')"
  by (simp add: stsConditions_def Let_def NewFalseCondition_def)

lemma deploymentScan_Inl:
  "deploymentScan rc cs p a = Inl rv \<Longrightarrow> rv = [rc\<lparr>Reason := ''Progress Deadline exceeded''\<rparr>]"
  by (induction cs arbitrary: p a) (auto simp: Let_def split: if_splits)

lemma deployment_single:
  "\<exists>s r. deploymentConditions obj = ([\<lparr>Type = ConditionReady, Status = s, Reason = r\<rparr>], None)
         \<and> (s = ''True'' \<or> s = ''False'')"
proof (cases "deploymentScan (NewFalseCondition ConditionReady) (GetConditions obj) False False")
  case (Inl rv)
  then show ?thesis
    using deploymentScan_Inl [OF Inl]
    by (simp add: deploymentConditions_def Let_def NewFalseCondition_def)
next
  case (Inr pa)
  then show ?thesis
    by (cases pa) (simp add: deploymentConditions_def Let_def NewFalseCondition_def)
qed

lemma replicaset_single:
  "\<exists>s r. replicasetConditions obj = ([\<lparr>Type = ConditionReady, Status = s, Reason = r\<rparr>], None)
         \<and> (s = ''True'' \<or> s = ''False'')"
  by (simp add: replicasetConditions_def Let_def NewFalseCondition_def)

lemma daemonset_single:
  "\<exists>s r. daemonsetConditions obj = ([\<lparr>Type = ConditionReady, Status = s, Reason = r\<rparr>], None)
         \<and> (s = ''True'' \<or> s = ''False'')"
  by (simp add: daemonsetConditions_def Let_def NewFalseCondition_def)

lemma pvc_single:
  "\<exists>s r. pvcConditions obj = ([\<lparr>Type = ConditionReady, Status = s, Reason = r\<rparr>], None)
         \<and> (s = ''True'' \<or> s = ''False'')"
  by (simp add: pvcConditions_def Let_def NewFalseCondition_def)

lemma pdb_single:
  "\<exists>s r. pdbConditions obj = ([\<lparr>Type = ConditionReady, Status = s, Reason = r\<rparr>], None)
         \<and> (s = ''True'' \<or> s = ''False'')"
  by (simp add: pdbConditions_def Let_def NewFalseCondition_def)

lemma alwaysReady_single:
  "\<exists>s r. alwaysReady obj = ([\<lparr>Type = ConditionReady, Status = s, Reason = r\<rparr>], None)
         \<and> (s = ''True'' \<or> s = ''False'')"
  by (simp add: alwaysReady_def)

lemma service_single:
  "\<exists>s r. serviceConditions obj = ([\<lparr>Type = ConditionReady, Status = s, Reason = r\<rparr>], None)
         \<and> (s = ''True'' \<or> s = ''False'')"
  by (simp add: serviceConditions_def Let_def NewCondition_def Condition_False_def Condition_Get_def)

lemma jobScan_Some:
  "jobScan succeeded failed completions cs = Some rv \<Longrightarrow>
     \<exists>m. rv = [\<lparr>Type = ConditionReady, Status = ''True'', Reason = m\<rparr>,
                \<lparr>Type = ConditionCompleted, Status = ''True'', Reason = m\<rparr>]
        \<or> rv = [\<lparr>Type = ConditionReady, Status = ''True'', Reason = m\<rparr>,
                \<lparr>Type = ConditionFailed, Status = ''True'', Reason = m\<rparr>]"
  by (induction cs) (auto simp: Let_def NewCondition_def Condition_Get_def split: if_splits)

lemma job_shape:
  "\<exists>rv. jobConditions obj = (rv, None) \<and> rv \<noteq> [] \<and> distinct (map Type rv)
        \<and> (\<forall>c\<in>set rv. Status c = ''True'' \<or> Status c = ''False'')"
proof (cases "jobScan (GetIntField obj ''.status.succeeded'' 0) (GetIntField obj ''.status.failed'' 0)
                (GetIntField obj ''.spec.completions'' (GetIntField obj ''.spec.parallelism'' 1))
                (GetConditions obj)")
  case None
  then show ?thesis
    by (simp add: jobConditions_def Let_def NewCondition_def Condition_False_def Condition_Get_def)
next
  case (Some rv)
  then show ?thesis
    using jobScan_Some [OF Some] by (auto simp: jobConditions_def Let_def)
qed

text \<open>
  The Pod scan appends the same terminal condition at every Ready entry it treats as
  completed, and only ever rewrites status and reason of the Ready condition.
\<close>

lemma podScan_step_ready:
  assumes "isReadyEntry c"
  shows "\<exists>rc'. podScan phase (c # cs) rv rc = podScan phase cs rv rc'
            \<or> podScan phase (c # cs) rv rc =
                podScan phase cs
                  (rv @ [if phase = ''Succeeded''
                         then \<lparr>Type = ConditionCompleted, Status = ''True'', Reason = ''Pod Succeeded''\<rparr>
                         else \<lparr>Type = ConditionFailed, Status = ''True'', Reason = ''Pod phase: '' @ phase\<rparr>])
                  rc'"
proof -
  have t: "GetStringField c ''.type'' [] = ''Ready''"
    using assms by (simp add: isReadyEntry_def GetStringField_is fieldAt_dot_type)
  show ?thesis
    by (simp add: t Let_def NewCondition_def Condition_Get_def del: ex_simps) fastforce
qed

lemma podScan_shape:
  "\<exists>n \<le> length (filter isReadyEntry cs).
      fst (podScan phase cs rv rc) =
        rv @ replicate n (if phase = ''Succeeded''
                          then \<lparr>Type = ConditionCompleted, Status = ''True'', Reason = ''Pod Succeeded''\<rparr>
                          else \<lparr>Type = ConditionFailed, Status = ''True'', Reason = ''Pod phase: '' @ phase\<rparr>)"
proof (induction cs arbitrary: rv rc)
  case Nil
  then show ?case by simp
next
  case (Cons c cs)
  let ?t = "if phase = ''Succeeded''
            then \<lparr>Type = ConditionCompleted, Status = ''True'', Reason = ''Pod Succeeded''\<rparr>
            else \<lparr>Type = ConditionFailed, Status = ''True'', Reason = ''Pod phase: '' @ phase\<rparr>"
  show ?case
  proof (cases "isReadyEntry c")
    case False
    then have "podScan phase (c # cs) rv rc = podScan phase cs rv rc"
      by (simp add: isReadyEntry_def GetStringField_is fieldAt_dot_type)
    then show ?thesis using Cons.IH [of rv rc] False by auto
  next
    case True
    then consider (plain) rc' where "podScan phase (c # cs) rv rc = podScan phase cs rv rc'"
      | (appended) rc' where "podScan phase (c # cs) rv rc = podScan phase cs (rv @ [?t]) rc'"
      using podScan_step_ready [of c phase cs rv rc] by blast
    then show ?thesis
    proof cases
      case plain
      obtain n where "n \<le> length (filter isReadyEntry cs)"
        and "fst (podScan phase cs rv rc') = rv @ replicate n ?t"
        using Cons.IH [of rv rc'] by blast
      then show ?thesis using plain True by (intro exI [of _ n]) simp
    next
      case appended
      obtain n where "n \<le> length (filter isReadyEntry cs)"
        and "fst (podScan phase cs (rv @ [?t]) rc') = (rv @ [?t]) @ replicate n ?t"
        using Cons.IH [of "rv @ [?t]" rc'] by blast
      then show ?thesis using appended True
        by (intro exI [of _ "Suc n"]) (simp add: replicate_append_same)
    qed
  qed
qed

lemma podScan_step:
  "\<exists>rv' rc'. podScan phase (c # cs) rv rc = podScan phase cs rv' rc'
      \<and> Type rc' = Type rc
      \<and> (Status rc = ''True'' \<or> Status rc = ''False''
           \<longrightarrow> Status rc' = ''True'' \<or> Status rc' = ''False'')"
  by (simp add: Let_def del: ex_simps) fastforce

lemma podScan_ready:
  "Status rc = ''True'' \<or> Status rc = ''False'' \<Longrightarrow>
     Type (snd (podScan phase cs rv rc)) = Type rc
     \<and> (Status (snd (podScan phase cs rv rc)) = ''True'' \<or> Status (snd (podScan phase cs rv rc)) = ''False'')"
proof (induction cs arbitrary: rv rc)
  case Nil
  then show ?case by simp
next
  case (Cons c cs)
  obtain rv' rc' where s: "podScan phase (c # cs) rv rc = podScan phase cs rv' rc'"
    and t: "Type rc' = Type rc"
    and b: "Status rc' = ''True'' \<or> Status rc' = ''False''"
    using podScan_step [of phase c cs rv rc] Cons.prems by blast
  show ?case using Cons.IH [OF b, of rv'] s t by simp
qed

lemma pod_shape:
  "\<exists>n t rc. podConditions obj = (replicate n t @ [rc], None)
      \<and> n \<le> length (filter isReadyEntry (GetConditions obj))
      \<and> (Type t = ConditionCompleted \<or> Type t = ConditionFailed) \<and> Status t = ''True''
      \<and> Type rc = ConditionReady \<and> (Status rc = ''True'' \<or> Status rc = ''False'')"
proof -
  let ?phase = "GetStringField obj ''.status.phase'' ''unknown''"
  let ?rc0 = "NewFalseCondition ConditionReady"
  let ?t = "if ?phase = ''Succeeded''
            then \<lparr>Type = ConditionCompleted, Status = ''True'', Reason = ''Pod Succeeded''\<rparr>
            else \<lparr>Type = ConditionFailed, Status = ''True'', Reason = ''Pod phase: '' @ ?phase\<rparr>"
  obtain rv rc where p: "podScan ?phase (GetConditions obj) [] ?rc0 = (rv, rc)"
    by (cases "podScan ?phase (GetConditions obj) [] ?rc0") auto
  obtain n where n: "n \<le> length (filter isReadyEntry (GetConditions obj))" and rv: "rv = replicate n ?t"
    using podScan_shape [of "GetConditions obj" ?phase "[]" ?rc0] p by auto
  have rc: "Type rc = ConditionReady \<and> (Status rc = ''True'' \<or> Status rc = ''False'')"
    using podScan_ready [of ?rc0 ?phase "GetConditions obj" "[]"] p
    by (simp add: NewFalseCondition_def)
  have t: "(Type ?t = ConditionCompleted \<or> Type ?t = ConditionFailed) \<and> Status ?t = ''True''"
    by simp
  show ?thesis
    apply (rule exI [of _ n])
    apply (rule exI [of _ ?t])
    using p n rv rc t
    by (auto simp: podConditions_def Let_def simp del: replicate.simps)
qed
lemma readyScan_step_ready:
  assumes "isReadyEntry c"
  shows "\<exists>t. readyScan (c # cs) rv ready = readyScan cs (rv @ [t]) True
            \<and> Type t = ConditionReady \<and> (Status t = ''True'' \<or> Status t = ''False'')"
proof -
  have t: "GetStringField c ''type'' [] = ''Ready''"
    using assms by (simp add: isReadyEntry_def GetStringField_is)
  show ?thesis
    by (simp add: t Let_def NewCondition_def Condition_False_def Condition_Get_def del: ex_simps)
       fastforce
qed

lemma readyScan_step_other:
  "\<not> isReadyEntry c \<Longrightarrow> readyScan (c # cs) rv ready = readyScan cs rv ready"
  by (simp add: isReadyEntry_def GetStringField_is)

lemma readyScan_shape:
  "\<exists>ts. readyScan cs rv ready = (rv @ ts, ready \<or> filter isReadyEntry cs \<noteq> [])
        \<and> length ts = length (filter isReadyEntry cs)
        \<and> (\<forall>t\<in>set ts. Type t = ConditionReady \<and> (Status t = ''True'' \<or> Status t = ''False''))"
proof (induction cs arbitrary: rv ready)
  case Nil
  then show ?case by simp
next
  case (Cons c cs)
  show ?case
  proof (cases "isReadyEntry c")
    case False
    then show ?thesis
      using readyScan_step_other [OF False, of cs rv ready] Cons.IH [of rv ready]
      by (simp del: readyScan.simps)
  next
    case True
    obtain t where s: "readyScan (c # cs) rv ready = readyScan cs (rv @ [t]) True"
      and t: "Type t = ConditionReady" "Status t = ''True'' \<or> Status t = ''False''"
      using readyScan_step_ready [OF True] by blast
    obtain ts where ts: "readyScan cs (rv @ [t]) True = ((rv @ [t]) @ ts, True \<or> filter isReadyEntry cs \<noteq> [])"
      "length ts = length (filter isReadyEntry cs)"
      "\<forall>t\<in>set ts. Type t = ConditionReady \<and> (Status t = ''True'' \<or> Status t = ''False'')"
      using Cons.IH [of "rv @ [t]" True] by blast
    show ?thesis
      using s t ts True by (intro exI [of _ "t # ts"]) (simp del: readyScan.simps)
  qed
qed

lemma generic_shape:
  "\<exists>rv. readyConditionReader obj = (rv, None) \<and> rv \<noteq> []
        \<and> length rv \<le> max 1 (length (filter isReadyEntry (GetConditions obj)))
        \<and> (\<forall>t\<in>set rv. Type t = ConditionReady \<and> (Status t = ''True'' \<or> Status t = ''False''))"
proof -
  obtain ts where ts:
    "readyScan (GetConditions obj) [] False = (ts, filter isReadyEntry (GetConditions obj) \<noteq> [])"
    "length ts = length (filter isReadyEntry (GetConditions obj))"
    "\<forall>t\<in>set ts. Type t = ConditionReady \<and> (Status t = ''True'' \<or> Status t = ''False'')"
    using readyScan_shape [of "GetConditions obj" "[]" False] by auto
  show ?thesis
  proof (cases "filter isReadyEntry (GetConditions obj) = []")
    case True
    then show ?thesis using ts
      by (simp add: readyConditionReader_def Let_def NewCondition_def Condition_False_def Condition_Get_def)
  next
    case False
    then have "ts \<noteq> []" using ts(2) by auto
    then show ?thesis using ts False
      by (simp add: readyConditionReader_def Let_def NewCondition_def Condition_False_def Condition_Get_def)
  qed
qed

section \<open>The dispatcher\<close>

lemma evaluators_cases:
  "f \<in> set evaluators \<Longrightarrow>
     f = serviceConditions \<or> f = podConditions \<or> f = pvcConditions \<or> f = stsConditions
     \<or> f = daemonsetConditions \<or> f = deploymentConditions \<or> f = replicasetConditions
     \<or> f = pdbConditions \<or> f = alwaysReady \<or> f = jobConditions \<or> f = readyConditionReader"
  by (auto simp: evaluators_def legacyTypes_def)

lemma IsReady_in_evaluators: "\<exists>f\<in>set evaluators. IsReady gvk u = f u"
proof (cases "GetLegacyReadyFn gvk u")
  case None
  then show ?thesis
    by (simp add: IsReady_def GetGenericReadyFn_def evaluators_def)
next
  case (Some f)
  obtain g k where gk: "gvk u = (g, k)" by (cases "gvk u") auto
  have "f \<in> set evaluators"
    using Some gk
    by (auto simp: GetLegacyReadyFn_def legacyTypes_def evaluators_def
             split: option.splits if_splits)
  then show ?thesis using Some by (auto simp: IsReady_def)
qed

lemma evaluators_all:
  assumes "f \<in> set evaluators"
    and "P serviceConditions" and "P podConditions" and "P pvcConditions" and "P stsConditions"
    and "P daemonsetConditions" and "P deploymentConditions" and "P replicasetConditions"
    and "P pdbConditions" and "P alwaysReady" and "P jobConditions" and "P readyConditionReader"
  shows "P f"
  using evaluators_cases [OF assms(1)] assms(2-) by (elim disjE) simp_all

lemma single_wellFormed:
  "\<exists>s r. x = ([\<lparr>Type = ConditionReady, Status = s, Reason = r\<rparr>], None) \<and> (s = ''True'' \<or> s = ''False'')
     \<Longrightarrow> wellFormed x \<and> distinct (map Type (fst x))"
  by (auto simp: wellFormed_def)

lemma job_wellFormed: "wellFormed (jobConditions u) \<and> distinct (map Type (fst (jobConditions u)))"
  using job_shape [of u] by (auto simp: wellFormed_def)

lemma pod_wellFormed: "wellFormed (podConditions u)"
proof -
  obtain n t rc where "podConditions u = (replicate n t @ [rc], None)"
    and "Status t = ''True''" and "Status rc = ''True'' \<or> Status rc = ''False''"
    using pod_shape [of u] by blast
  then show ?thesis by (auto simp: wellFormed_def)
qed

lemma generic_wellFormed: "wellFormed (readyConditionReader u)"
  using generic_shape [of u] by (auto simp: wellFormed_def)

lemma evaluator_wellFormed: "f \<in> set evaluators \<Longrightarrow> wellFormed (f u)"
proof (erule evaluators_all)
  show "wellFormed (serviceConditions u)" using single_wellFormed [OF service_single] by blast
  show "wellFormed (podConditions u)" by (rule pod_wellFormed)
  show "wellFormed (pvcConditions u)" using single_wellFormed [OF pvc_single] by blast
  show "wellFormed (stsConditions u)" using single_wellFormed [OF sts_single] by blast
  show "wellFormed (daemonsetConditions u)" using single_wellFormed [OF daemonset_single] by blast
  show "wellFormed (deploymentConditions u)" using single_wellFormed [OF deployment_single] by blast
  show "wellFormed (replicasetConditions u)" using single_wellFormed [OF replicaset_single] by blast
  show "wellFormed (pdbConditions u)" using single_wellFormed [OF pdb_single] by blast
  show "wellFormed (alwaysReady u)" using single_wellFormed [OF alwaysReady_single] by blast
  show "wellFormed (jobConditions u)" using job_wellFormed by blast
  show "wellFormed (readyConditionReader u)" by (rule generic_wellFormed)
qed



section \<open>Statuses are "True" or "False"\<close>

text \<open>
  C10. Every condition returned by an evaluator, dedicated or generic, and so every condition
  returned by the dispatcher \<open>IsReady\<close>, has status "True" or "False". An entry of
  \<open>status.conditions\<close> with status "Unknown" is turned into one of the two by the evaluator
  that reads it.
\<close>

theorem status_true_or_false:
  "(\<forall>f\<in>set evaluators. \<forall>c\<in>set (fst (f u)). Status c = ''True'' \<or> Status c = ''False'')
   \<and> (\<forall>c\<in>set (fst (IsReady gvk u)). Status c = ''True'' \<or> Status c = ''False'')"
proof -
  have a: "\<forall>f\<in>set evaluators. \<forall>c\<in>set (fst (f u)). Status c = ''True'' \<or> Status c = ''False''"
    using evaluator_wellFormed [of _ u] by (auto simp: wellFormed_def)
  obtain f where "f \<in> set evaluators" and "IsReady gvk u = f u"
    using IsReady_in_evaluators [of gvk u] by blast
  then have "\<forall>c\<in>set (fst (IsReady gvk u)). Status c = ''True'' \<or> Status c = ''False''"
    using a by auto
  then show ?thesis using a by blast
qed

text \<open>
  A custom resource and a Pod whose first Ready entry has status "Unknown": the generic
  evaluator makes it "True", the Pod evaluator lets the second entry decide.
\<close>

theorem status_true_or_false_witness:
  "readyConditionReader \<in> set evaluators
   \<and> map Status (fst (readyConditionReader twoReadyObj)) = [''True'', ''False'']
   \<and> map Status (fst (IsReady podGVK twoReadyObj)) = [''True'', ''True'']"
proof -
  have m: "readyConditionReader \<in> set evaluators"
    by (simp add: evaluators_def)
  have g: "map Status (fst (readyConditionReader twoReadyObj)) = [''True'', ''False'']"
    by code_simp
  have p: "map Status (fst (IsReady podGVK twoReadyObj)) = [''True'', ''True'']"
    by code_simp
  show ?thesis
    using status_true_or_false [of twoReadyObj podGVK] m g p by blast
qed

section \<open>One condition per type\<close>




section \<open>Pod: completed pods\<close>

lemma podScan_append:
  "podScan phase (xs @ ys) rv rc =
     (case podScan phase xs rv rc of (rv', rc') \<Rightarrow> podScan phase ys rv' rc')"
proof (cases "phase = ''Succeeded''")
  case True
  show ?thesis unfolding True
    by (induction xs arbitrary: rv rc) (simp_all add: Let_def)
next
  case False
  then show ?thesis
    by (induction xs arbitrary: rv rc) (simp_all add: Let_def)
qed

lemma podScan_no_ready:
  "\<forall>d\<in>set cs. \<not> isReadyEntry d \<Longrightarrow> podScan phase cs rv rc = (rv, rc)"
  by (induction cs arbitrary: rv rc)
     (simp_all add: isReadyEntry_def GetStringField_is fieldAt_dot_type)

lemma podScan_completed:
  assumes "isReadyEntry c"
    and "fieldAt c ''status'' \<noteq> Some (VString ''True'')"
    and "fieldAt c ''reason'' = Some (VString ''PodCompleted'')"
  shows "podScan phase (c # cs) rv rc =
           podScan phase cs
             (rv @ [if phase = ''Succeeded''
                    then \<lparr>Type = ConditionCompleted, Status = ''True'', Reason = ''Pod Succeeded''\<rparr>
                    else \<lparr>Type = ConditionFailed, Status = ''True'', Reason = ''Pod phase: '' @ phase\<rparr>])
             \<lparr>Type = Type rc, Status = ''True'', Reason = ''PodCompleted''\<rparr>"
proof -
  have t: "GetStringField c ''.type'' [] = ''Ready''"
    using assms(1) by (simp add: isReadyEntry_def GetStringField_is fieldAt_dot_type)
  have s: "GetStringField c ''status'' [] \<noteq> ''True''"
    using assms(2) by (simp add: GetStringField_is)
  have r: "GetStringField c ''reason'' [] = ''PodCompleted''"
    using assms(3) by (simp add: GetStringField_is)
  show ?thesis
    using t s r by (cases rc) (simp add: Let_def NewCondition_def Condition_Get_def)
qed

text \<open>
  C4 (as amended). Let the last entry of type Ready in a Pod's \<open>status.conditions\<close> have a
  status other than "True" (status "False" in particular) and the reason PodCompleted. Then
  the result ends with Ready=True with reason "Phase: <phase>, PodCompleted", and before it
  come only terminal conditions, all alike: Completed=True when the phase is Succeeded,
  Failed=True with reason "Pod phase: <phase>" for any other phase, never both. There is one
  for this entry and at most one for each earlier Ready entry, so exactly one when this is
  the only Ready entry.
\<close>

theorem pod_completed:
  assumes "GetConditions obj = pre @ c # post"
    and "isReadyEntry c"
    and "fieldAt c ''status'' \<noteq> Some (VString ''True'')"
    and "fieldAt c ''reason'' = Some (VString ''PodCompleted'')"
    and "\<forall>d\<in>set post. \<not> isReadyEntry d"
    and "GetStringField obj ''.status.phase'' ''unknown'' = phase"
  shows "\<exists>n \<le> length (filter isReadyEntry pre).
           podConditions obj =
             (replicate (Suc n)
                (if phase = ''Succeeded''
                 then \<lparr>Type = ConditionCompleted, Status = ''True'', Reason = ''Pod Succeeded''\<rparr>
                 else \<lparr>Type = ConditionFailed, Status = ''True'', Reason = ''Pod phase: '' @ phase\<rparr>)
              @ [\<lparr>Type = ConditionReady, Status = ''True'',
                  Reason = ''Phase: '' @ phase @ '', PodCompleted''\<rparr>], None)"
proof -
  let ?t = "if phase = ''Succeeded''
            then \<lparr>Type = ConditionCompleted, Status = ''True'', Reason = ''Pod Succeeded''\<rparr>
            else \<lparr>Type = ConditionFailed, Status = ''True'', Reason = ''Pod phase: '' @ phase\<rparr>"
  let ?rc0 = "NewFalseCondition ConditionReady"
  obtain rv1 rc1 where p1: "podScan phase pre [] ?rc0 = (rv1, rc1)"
    by (cases "podScan phase pre [] ?rc0") auto
  obtain n where n: "n \<le> length (filter isReadyEntry pre)" and rv1: "rv1 = replicate n ?t"
    using podScan_shape [of pre phase "[]" ?rc0] p1 by auto
  have ty: "Type rc1 = ConditionReady"
    using podScan_ready [of ?rc0 phase pre "[]"] p1 by (simp add: NewFalseCondition_def)
  have "podScan phase (c # post) rv1 rc1 =
          podScan phase post (rv1 @ [?t]) \<lparr>Type = Type rc1, Status = ''True'', Reason = ''PodCompleted''\<rparr>"
    using assms(2-4) by (rule podScan_completed)
  also have "\<dots> = (rv1 @ [?t], \<lparr>Type = Type rc1, Status = ''True'', Reason = ''PodCompleted''\<rparr>)"
    using assms(5) by (rule podScan_no_ready)
  finally have "podScan phase (pre @ c # post) [] ?rc0 =
      (replicate (Suc n) ?t, \<lparr>Type = ConditionReady, Status = ''True'', Reason = ''PodCompleted''\<rparr>)"
    using p1 rv1 ty by (simp add: podScan_append replicate_append_same del: podScan.simps)
  then have "podConditions obj =
      (replicate (Suc n) ?t @ [\<lparr>Type = ConditionReady, Status = ''True'',
                                Reason = ''Phase: '' @ phase @ '', PodCompleted''\<rparr>], None)"
    using assms(1,6) by (simp add: podConditions_def Let_def del: podScan.simps replicate.simps)
  then show ?thesis using n by blast
qed

text \<open>
  For the succeeded Pod \<open>oneReadyObj\<close> and the failed Pod \<open>failedPod\<close> no Ready entry comes
  before the completed one, so the count \<open>n\<close> is 0.
\<close>

theorem pod_completed_witness:
  "podConditions oneReadyObj =
     ([\<lparr>Type = ConditionCompleted, Status = ''True'', Reason = ''Pod Succeeded''\<rparr>,
       \<lparr>Type = ConditionReady, Status = ''True'', Reason = ''Phase: Succeeded, PodCompleted''\<rparr>], None)
   \<and> podConditions failedPod =
     ([\<lparr>Type = ConditionFailed, Status = ''True'', Reason = ''Pod phase: Failed''\<rparr>,
       \<lparr>Type = ConditionReady, Status = ''True'', Reason = ''Phase: Failed, PodCompleted''\<rparr>], None)"
proof -
  have c1: "GetConditions oneReadyObj = [initializedEntry] @ completedEntry # []" by code_simp
  have c2: "GetConditions failedPod = [initializedEntry] @ completedEntry # []" by code_simp
  have r: "isReadyEntry completedEntry" by code_simp
  have s: "fieldAt completedEntry ''status'' \<noteq> Some (VString ''True'')" by code_simp
  have e: "fieldAt completedEntry ''reason'' = Some (VString ''PodCompleted'')" by code_simp
  have p: "\<forall>d\<in>set []. \<not> isReadyEntry d" by simp
  have ph1: "GetStringField oneReadyObj ''.status.phase'' ''unknown'' = ''Succeeded''" by code_simp
  have ph2: "GetStringField failedPod ''.status.phase'' ''unknown'' = ''Failed''" by code_simp
  have z: "length (filter isReadyEntry [initializedEntry]) = 0" by code_simp
  show ?thesis
    using pod_completed [OF c1 r s e p ph1] pod_completed [OF c2 r s e p ph2] z by simp
qed

text \<open>
  The claim as written asks only that such an entry be present. Here it is followed by a
  second Ready entry, which overwrites the Ready condition: the result is Ready=False.
\<close>

theorem pod_overwritten_counterexample:
  "completedEntry \<in> set (GetConditions overwrittenPod)
   \<and> podConditions overwrittenPod =
     ([\<lparr>Type = ConditionCompleted, Status = ''True'', Reason = ''Pod Succeeded''\<rparr>,
       \<lparr>Type = ConditionReady, Status = ''False'',
         Reason = ''Phase: Succeeded, ContainersNotReady''\<rparr>], None)"
  by code_simp
section \<open>Job: the first terminal entry decides\<close>








section \<open>Batch orchestrator: one item per reference\<close>

lemma IsReady_wellFormed: "wellFormed (IsReady gvk u)"
  using IsReady_in_evaluators [of gvk u] evaluator_wellFormed [of _ u] by auto

lemma IsReady_eq: "IsReady gvk u = (fst (IsReady gvk u), None)"
  using IsReady_wellFormed [of gvk u] by (cases "IsReady gvk u") (simp add: wellFormed_def)

lemma Do_loop_eq:
  "Do_loop get gvk cl us rs errs =
     (rs @ map (\<lambda>(u, e). case e of
                  Some err \<Rightarrow> \<lparr>Resource = u, Conditions = [], Error = Some err\<rparr>
                | None \<Rightarrow> \<lparr>Resource = u, Conditions = fst (IsReady gvk u), Error = None\<rparr>)
             (fetchAll get cl us),
      errs @ List.map_filter snd (fetchAll get cl us))"
proof (induction us arbitrary: cl rs errs)
  case Nil
  then show ?case by simp
next
  case (Cons u0 us)
  obtain cl' u err where g: "get cl u0 = (cl', u, err)"
    by (cases "get cl u0") auto
  show ?case
  proof (cases err)
    case None
    obtain conditions where i: "IsReady gvk u = (conditions, None)"
      using IsReady_eq [of gvk u] by blast
    show ?thesis
      using g None Cons.IH [of cl'] i by simp
  next
    case (Some e)
    then show ?thesis
      using g Cons.IH [of cl'] by simp
  qed
qed

lemma map_filter_snd_map:
  "List.map_filter snd xs =
     List.map_filter Error
       (map (\<lambda>(u, e). case e of
               Some err \<Rightarrow> \<lparr>Resource = u, Conditions = [], Error = Some err\<rparr>
             | None \<Rightarrow> \<lparr>Resource = u, Conditions = c u, Error = None\<rparr>) xs)"
  by (induction xs) (auto split: option.splits)

lemma item_resource_error:
  "map (\<lambda>r. (Resource r, Error r))
     (map (\<lambda>(u, e). case e of
             Some err \<Rightarrow> \<lparr>Resource = u, Conditions = [], Error = Some err\<rparr>
           | None \<Rightarrow> \<lparr>Resource = u, Conditions = c u, Error = None\<rparr>) xs) = xs"
  by (induction xs) (auto split: option.splits)

lemma length_map_filter:
  "length (List.map_filter f xs) = length (filter (\<lambda>r. f r \<noteq> None) xs)"
  by (induction xs) (auto split: option.splits)

lemma length_fetchAll: "length (fetchAll get cl us) = length us"
  by (induction us arbitrary: cl) (auto split: prod.splits)

text \<open>
  C3. \<open>Do\<close> returns one \<open>ResourceStatus\<close> for each input reference, in input order: the
  recorded resource and error of the i-th item are what the store delivered for the i-th
  reference. An item with an error has no conditions; an item without error carries the
  conditions of its evaluator, which are not empty (no evaluator ever returns an error, so
  the errors are the fetch errors). The second component is \<open>nil\<close> when no item has an error
  and otherwise the aggregate of exactly the items' errors, in input order.
\<close>

theorem Do_batch:
  assumes "Do get gvk cl us = (result, agg)"
  shows "length (Resources result) = length us
         \<and> map (\<lambda>r. (Resource r, Error r)) (Resources result) = fetchAll get cl us
         \<and> (\<forall>r\<in>set (Resources result).
               (Error r \<noteq> None \<longrightarrow> Conditions r = [])
               \<and> (Error r = None \<longrightarrow>
                    Conditions r = fst (IsReady gvk (Resource r)) \<and> Conditions r \<noteq> []))
         \<and> agg = (if List.map_filter Error (Resources result) = [] then None
                  else Some (Aggregate (List.map_filter Error (Resources result))))
         \<and> length (List.map_filter Error (Resources result))
             = length (filter (\<lambda>r. Error r \<noteq> None) (Resources result))"
proof -
  let ?item = "\<lambda>(u, e). case e of
                  Some err \<Rightarrow> \<lparr>Resource = u, Conditions = [], Error = Some err\<rparr>
                | None \<Rightarrow> \<lparr>Resource = u, Conditions = fst (IsReady gvk u), Error = None\<rparr>"
  let ?fs = "fetchAll get cl us"
  have loop: "Do_loop get gvk cl us [] [] = (map ?item ?fs, List.map_filter snd ?fs)"
    using Do_loop_eq [of get gvk cl us "[]" "[]"] by simp
  have res: "Resources result = map ?item ?fs"
    using assms loop by (auto simp: Do_def split: if_splits)
  have errs: "List.map_filter snd ?fs = List.map_filter Error (Resources result)"
    using map_filter_snd_map [of ?fs "\<lambda>u. fst (IsReady gvk u)"] res by simp
  have a: "length (Resources result) = length us"
    using res by (simp add: length_fetchAll)
  have b: "map (\<lambda>r. (Resource r, Error r)) (Resources result) = ?fs"
    unfolding res by (rule item_resource_error)
  have c: "\<forall>r\<in>set (Resources result).
               (Error r \<noteq> None \<longrightarrow> Conditions r = [])
               \<and> (Error r = None \<longrightarrow>
                    Conditions r = fst (IsReady gvk (Resource r)) \<and> Conditions r \<noteq> [])"
    unfolding res using IsReady_wellFormed [of gvk]
    by (auto simp: wellFormed_def split: option.splits)
  have d: "agg = (if List.map_filter Error (Resources result) = [] then None
                  else Some (Aggregate (List.map_filter Error (Resources result))))"
    using assms loop errs by (auto simp: Do_def NewAggregate_def split: if_splits)
  have e: "length (List.map_filter Error (Resources result))
             = length (filter (\<lambda>r. Error r \<noteq> None) (Resources result))"
    by (rule length_map_filter)
  from a b c d e show ?thesis by blast
qed

text \<open>
  Three references, the second unknown to the store: three items in input order, the second
  with the fetch error, and the aggregate of that one error.
\<close>

theorem Do_batch_witness:
  "Do demoGet widgetGVK 0 [customObj, missingObj, oneReadyObj] =
     (\<lparr>Resources =
         [\<lparr>Resource = customObj,
            Conditions = [\<lparr>Type = ConditionReady, Status = ''True'',
                            Reason = ''No Ready condition found''\<rparr>],
            Error = None\<rparr>,
          \<lparr>Resource = missingObj, Conditions = [], Error = Some (ClientError ''not found'')\<rparr>,
          \<lparr>Resource = oneReadyObj,
            Conditions = [\<lparr>Type = ConditionReady, Status = ''False'', Reason = ''PodCompleted''\<rparr>],
            Error = None\<rparr>]\<rparr>,
      Some (Aggregate [ClientError ''not found'']))
   \<and> length (Resources (fst (Do demoGet widgetGVK 0 [customObj, missingObj, oneReadyObj]))) = 3
   \<and> snd (Do demoGet widgetGVK 0 [customObj, missingObj, oneReadyObj])
       = Some (Aggregate (List.map_filter Error
           (Resources (fst (Do demoGet widgetGVK 0 [customObj, missingObj, oneReadyObj])))))"
proof -
  let ?d = "Do demoGet widgetGVK 0 [customObj, missingObj, oneReadyObj]"
  have v: "?d =
     (\<lparr>Resources =
         [\<lparr>Resource = customObj,
            Conditions = [\<lparr>Type = ConditionReady, Status = ''True'',
                            Reason = ''No Ready condition found''\<rparr>],
            Error = None\<rparr>,
          \<lparr>Resource = missingObj, Conditions = [], Error = Some (ClientError ''not found'')\<rparr>,
          \<lparr>Resource = oneReadyObj,
            Conditions = [\<lparr>Type = ConditionReady, Status = ''False'', Reason = ''PodCompleted''\<rparr>],
            Error = None\<rparr>]\<rparr>,
      Some (Aggregate [ClientError ''not found'']))"
    by code_simp
  have p: "?d = (fst ?d, snd ?d)" by simp
  have n: "List.map_filter Error (Resources (fst ?d)) \<noteq> []"
    unfolding v by simp
  show ?thesis
    using Do_batch [OF p] n v by simp
qed

end
